theory Spec2Isabelle
  imports Main "HOL-Library.Multiset"
begin

section \<open>The related-artists script (scripts/similiar\_artists.py)\<close>

text \<open>
  The script is one sequence of statements: it tallies a listening history, takes a
  seed artist from the tally, asks a music catalogue for related artists (once for the
  seed, four times more), writes the edges to a spreadsheet, looks every artist of the
  edges up again and writes the nodes to a second spreadsheet. The model follows the
  statements in their order. An uncaught exception is a value of type \<open>error\<close>; the
  effects (calls of the catalogue, pauses, files written) are kept in a \<open>world\<close> that
  every statement takes and returns, also when it raises.
\<close>

subsection \<open>Exceptions\<close>

datatype error =
    KeyError              \<comment> \<open>a label that the row index or the dict does not have\<close>
  | IndexError            \<comment> \<open>a Python list read out of range\<close>
  | ValueError            \<comment> \<open>\<open>pd.DataFrame\<close> on columns of different lengths\<close>
  | SpotifyException      \<comment> \<open>a call of the catalogue that fails\<close>

text \<open>\<open>xs[i]\<close> on a Python list, for an index that is not negative.\<close>

definition list_at :: "'a list \<Rightarrow> nat \<Rightarrow> error + 'a" where
  "list_at xs i = (if i < length xs then Inr (xs ! i) else Inl IndexError)"

text \<open>
  \<open>s[i]\<close> on a pandas Series whose row index is the range \<open>0..n-1\<close> left by
  \<open>reset_index\<close>: the integer is looked up as a label of that range, and a label
  outside of it raises \<open>KeyError\<close>.
\<close>

definition series_at :: "'a list \<Rightarrow> nat \<Rightarrow> error + 'a" where
  "series_at xs i = (if i < length xs then Inr (xs ! i) else Inl KeyError)"

subsection \<open>Seed selection (lines 20--23)\<close>

text \<open>
  A row of the listening history \<open>df\<close>, with the two columns the script reads. Both
  cells are present strings. The script does not load \<open>df\<close> itself: it is an input
  of the run. Line 23, \<open>tallyArtists.head(4)\<close>, only looks at the tally.
\<close>

record listening =
  artist :: string
  artist_id :: string

text \<open>
  The groups of \<open>df\<close>, each listed once. pandas does not promise an order between
  rows of the tally with equal counts; the model lists the groups in order of first
  appearance and sorts stably.
\<close>

definition groups :: "listening list \<Rightarrow> listening list" where
  "groups df = rev (remdups (rev df))"

text \<open>
  \<open>df.value_counts(["artist", "artist_id"]).reset_index(name='counts')\<close>: one row per
  group with the number of its rows in \<open>df\<close>, the largest count first.
\<close>

definition value_counts :: "listening list \<Rightarrow> (listening \<times> nat) list" where
  "value_counts df =
     sort_key (\<lambda>row. - int (snd row)) (map (\<lambda>g. (g, count_list df g)) (groups df))"

text \<open>\<open>topArtist = tallyArtists['artist_id'][1]\<close>\<close>

definition topArtist :: "listening list \<Rightarrow> error + string" where
  "topArtist df =
     (let tallyArtists = value_counts df
      in series_at (map (\<lambda>row. artist_id (fst row)) tallyArtists) 1)"

subsection \<open>The catalogue and the effects of a run\<close>

text \<open>
  The objects the catalogue answers with, with the fields the script reads:
  \<open>a['name']\<close>, \<open>a['id']\<close>, \<open>a['followers']['total']\<close>, \<open>a['popularity']\<close>,
  \<open>a['external_urls']['spotify']\<close>, \<open>a['images'][0]['url']\<close> and \<open>ra['artists']\<close>.
\<close>

record image_obj =
  url :: string

record artist_obj =
  name :: string
  id' :: string
  followers_total :: int
  popularity :: int
  external_urls_spotify :: string
  images :: "image_obj list"

record related_obj =
  artists :: "artist_obj list"

text \<open>
  The client \<open>sp\<close>: the answers of the catalogue to \<open>sp.artist(q)\<close> and
  \<open>sp.artist_related_artists(q)\<close>, \<open>None\<close> where the call raises.
\<close>

record spotify =
  sp_artist :: "string \<Rightarrow> artist_obj option"
  sp_artist_related_artists :: "string \<Rightarrow> related_obj option"

datatype event =
    Artist_call string            \<comment> \<open>\<open>sp.artist(q)\<close>\<close>
  | Related_call string           \<comment> \<open>\<open>sp.artist_related_artists(q)\<close>\<close>
  | Sleep                         \<comment> \<open>\<open>time.sleep(.5)\<close>\<close>

datatype cell = Str string | Num int

record sheet =
  header :: "string list"
  body :: "cell list list"

record world =
  events :: "event list"
  files :: "string \<Rightarrow> sheet option"

text \<open>A statement: it takes the world and returns a value or an exception, and the world.\<close>

type_synonym 'a prog = "world \<Rightarrow> (error + 'a) \<times> world"

definition return :: "'a \<Rightarrow> 'a prog" where
  "return x w = (Inr x, w)"

definition lift :: "error + 'a \<Rightarrow> 'a prog" where
  "lift r w = (r, w)"

text \<open>Two statements in sequence: an exception of the first skips the second.\<close>

definition and_then :: "'a prog \<Rightarrow> ('a \<Rightarrow> 'b prog) \<Rightarrow> 'b prog" where
  "and_then m f w = (case m w of (Inl e, w') \<Rightarrow> (Inl e, w') | (Inr x, w') \<Rightarrow> f x w')"

text \<open>\<open>for x in xs: block\<close>, the block updating the variable \<open>s\<close>.\<close>

fun for_each :: "'i list \<Rightarrow> ('i \<Rightarrow> 's \<Rightarrow> 's prog) \<Rightarrow> 's \<Rightarrow> 's prog" where
  "for_each [] block s = return s"
| "for_each (x # xs) block s = and_then (block x s) (for_each xs block)"

definition artist_call :: "spotify \<Rightarrow> string \<Rightarrow> artist_obj prog" where
  "artist_call sp q w =
     (let w' = w\<lparr>events := events w @ [Artist_call q]\<rparr>
      in case sp_artist sp q of None \<Rightarrow> (Inl SpotifyException, w') | Some a \<Rightarrow> (Inr a, w'))"

definition related_call :: "spotify \<Rightarrow> string \<Rightarrow> related_obj prog" where
  "related_call sp q w =
     (let w' = w\<lparr>events := events w @ [Related_call q]\<rparr>
      in case sp_artist_related_artists sp q of
           None \<Rightarrow> (Inl SpotifyException, w') | Some ra \<Rightarrow> (Inr ra, w'))"

definition sleep :: "unit prog" where
  "sleep w = (Inr (), w\<lparr>events := events w @ [Sleep]\<rparr>)"

subsection \<open>Dictionaries of lists and tables\<close>

text \<open>
  \<open>links_dict\<close> and \<open>points_dict\<close> map a column name to a list. The keys are kept in
  the order of the dict literal, which is the order of the columns of the table.
\<close>

type_synonym 'a dict_of_lists = "(string \<times> 'a list) list"

text \<open>\<open>d[k]\<close>\<close>

definition getitem :: "'a dict_of_lists \<Rightarrow> string \<Rightarrow> error + 'a list" where
  "getitem d k = (case map_of d k of None \<Rightarrow> Inl KeyError | Some xs \<Rightarrow> Inr xs)"

text \<open>\<open>d[k].append(v)\<close>\<close>

fun append_at :: "'a dict_of_lists \<Rightarrow> string \<Rightarrow> 'a \<Rightarrow> error + 'a dict_of_lists" where
  "append_at [] k v = Inl KeyError"
| "append_at ((k', xs) # d) k v =
     (if k' = k then Inr ((k', xs @ [v]) # d)
      else case append_at d k v of Inl e \<Rightarrow> Inl e | Inr d' \<Rightarrow> Inr ((k', xs) # d'))"

text \<open>\<open>pd.DataFrame(d)\<close>: the columns must have one length.\<close>

definition DataFrame :: "'a dict_of_lists \<Rightarrow> error + 'a dict_of_lists" where
  "DataFrame d =
     (if list_all (\<lambda>col. length (snd col) = length (snd (hd d))) d then Inr d
      else Inl ValueError)"

definition frame_rows :: "'a dict_of_lists \<Rightarrow> 'a list list" where
  "frame_rows f =
     (case f of [] \<Rightarrow> []
      | col # _ \<Rightarrow> map (\<lambda>r. map (\<lambda>c. snd c ! r) f) [0..<length (snd col)])"

text \<open>
  \<open>frame.to_excel(path, index = ...)\<close>: a header row and the rows of the table; with
  \<open>index\<close> a first column holds the row labels. A file already at \<open>path\<close> is replaced.
\<close>

definition to_excel :: "cell dict_of_lists \<Rightarrow> string \<Rightarrow> bool \<Rightarrow> unit prog" where
  "to_excel f path index w =
     (let sh = (if index
                then \<lparr>header = [] # map fst f,
                      body = map (\<lambda>(r, row). Num (int r) # row) (enumerate 0 (frame_rows f))\<rparr>
                else \<lparr>header = map fst f, body = frame_rows f\<rparr>)
      in (Inr (), w\<lparr>files := (files w)(path \<mapsto> sh)\<rparr>))"

subsection \<open>The edges (lines 26--52)\<close>

definition links_dict_init :: "string dict_of_lists" where
  "links_dict_init =
     [(''source_name'', []), (''source_id'', []), (''target_name'', []), (''target_id'', [])]"

text \<open>The body of \<open>for artist in ra['artists']\<close> (lines 33--36 and 44--47).\<close>

definition append_link ::
  "artist_obj \<Rightarrow> artist_obj \<Rightarrow> string dict_of_lists \<Rightarrow> string dict_of_lists prog" where
  "append_link a artist' d =
     and_then (lift (append_at d ''source_name'' (name a))) (\<lambda>d.
     and_then (lift (append_at d ''source_id'' (id' a))) (\<lambda>d.
     and_then (lift (append_at d ''target_name'' (name artist'))) (\<lambda>d.
     lift (append_at d ''target_id'' (id' artist')))))"

text \<open>Lines 27--36: the seed.\<close>

definition seed_links :: "spotify \<Rightarrow> string \<Rightarrow> string dict_of_lists prog" where
  "seed_links sp seed =
     and_then (artist_call sp seed) (\<lambda>a.
     and_then (related_call sp seed) (\<lambda>ra.
     for_each (artists ra) (append_link a) links_dict_init))"

text \<open>The body of \<open>for i in range(0, 4)\<close> (lines 40--47).\<close>

definition expansion_body :: "spotify \<Rightarrow> nat \<Rightarrow> string dict_of_lists \<Rightarrow> string dict_of_lists prog" where
  "expansion_body sp i d =
     and_then (lift (getitem d ''target_id'')) (\<lambda>tids.
     and_then (lift (list_at tids i)) (\<lambda>q.
     and_then (artist_call sp q) (\<lambda>a.
     and_then (lift (getitem d ''target_id'')) (\<lambda>tids.
     and_then (lift (list_at tids i)) (\<lambda>q.
     and_then (related_call sp q) (\<lambda>ra.
     and_then sleep (\<lambda>_.
     for_each (artists ra) (append_link a) d)))))))"

definition cells :: "string dict_of_lists \<Rightarrow> cell dict_of_lists" where
  "cells d = map (\<lambda>(k, xs). (k, map Str xs)) d"

text \<open>Lines 27--52; the value is \<open>links_dict\<close>.\<close>

definition edge_stage :: "spotify \<Rightarrow> string \<Rightarrow> string dict_of_lists prog" where
  "edge_stage sp seed =
     and_then (seed_links sp seed) (\<lambda>d.
     and_then (for_each [0..<4] (expansion_body sp) d) (\<lambda>links_dict.
     and_then (lift (DataFrame links_dict)) (\<lambda>links.
     and_then (to_excel (cells links) ''links.xlsx'' False) (\<lambda>_.
     return links_dict))))"

subsection \<open>The nodes (lines 57--74)\<close>

definition points_dict_init :: "cell dict_of_lists" where
  "points_dict_init =
     [(''id'', []), (''name'', []), (''followers'', []), (''popularity'', []), (''url'', []),
      (''image'', [])]"

text \<open>The body of \<open>for id in all_artist_ids\<close> (lines 62--69).\<close>

definition node_body :: "spotify \<Rightarrow> string \<Rightarrow> cell dict_of_lists \<Rightarrow> cell dict_of_lists prog" where
  "node_body sp aid d =
     and_then sleep (\<lambda>_.
     and_then (artist_call sp aid) (\<lambda>a.
     and_then (lift (append_at d ''id'' (Str aid))) (\<lambda>d.
     and_then (lift (append_at d ''name'' (Str (name a)))) (\<lambda>d.
     and_then (lift (append_at d ''followers'' (Num (followers_total a)))) (\<lambda>d.
     and_then (lift (append_at d ''popularity'' (Num (popularity a)))) (\<lambda>d.
     and_then (lift (append_at d ''url'' (Str (external_urls_spotify a)))) (\<lambda>d.
     and_then (lift (list_at (images a) 0)) (\<lambda>img.
     lift (append_at d ''image'' (Str (url img)))))))))))"

text \<open>
  \<open>list(set(xs))\<close> lists every element of \<open>xs\<close> once, in an order Python does not
  promise. The order is a parameter of the run: a function that is only known to list
  the elements once each.
\<close>

definition set_iteration :: "(string list \<Rightarrow> string list) \<Rightarrow> bool" where
  "set_iteration list_set = (\<forall>xs. distinct (list_set xs) \<and> set (list_set xs) = set xs)"

text \<open>Lines 58--74; the value is the table \<open>points\<close>.\<close>

definition node_stage ::
  "spotify \<Rightarrow> (string list \<Rightarrow> string list) \<Rightarrow> string dict_of_lists \<Rightarrow> cell dict_of_lists prog" where
  "node_stage sp list_set links_dict =
     and_then (lift (getitem links_dict ''source_id'')) (\<lambda>sids.
     and_then (lift (getitem links_dict ''target_id'')) (\<lambda>tids.
     and_then (for_each (list_set (sids @ tids)) (node_body sp) points_dict_init) (\<lambda>points_dict.
     and_then (lift (DataFrame points_dict)) (\<lambda>points.
     and_then (to_excel points ''points.xlsx'' False) (\<lambda>_.
     return points)))))"

subsection \<open>The script\<close>

text \<open>The value of a run that ends is the pair of \<open>links_dict\<close> and \<open>points\<close>.\<close>

definition run ::
  "spotify \<Rightarrow> (string list \<Rightarrow> string list) \<Rightarrow> listening list \<Rightarrow>
   (string dict_of_lists \<times> cell dict_of_lists) prog" where
  "run sp list_set df =
     and_then (lift (topArtist df)) (\<lambda>seed.
     and_then (edge_stage sp seed) (\<lambda>links_dict.
     and_then (node_stage sp list_set links_dict) (\<lambda>points.
     return (links_dict, points))))"

subsection \<open>Edges as rows\<close>

text \<open>
  The edge that lines 33--36 append for the queried artist \<open>a\<close> and one of its related
  artists: source name, source id, target name, target id.
\<close>

type_synonym edge = "string \<times> string \<times> string \<times> string"

definition edge :: "artist_obj \<Rightarrow> artist_obj \<Rightarrow> edge" where
  "edge a artist' = (name a, id' a, name artist', id' artist')"

definition target_of :: "edge \<Rightarrow> string" where
  "target_of e = (case e of (sn, si, tn, ti) \<Rightarrow> ti)"

definition source_of :: "edge \<Rightarrow> string" where
  "source_of e = (case e of (sn, si, tn, ti) \<Rightarrow> si)"

text \<open>The dictionary of lists that holds the edges \<open>es\<close>, one entry of each list per edge.\<close>

definition links_of :: "edge list \<Rightarrow> string dict_of_lists" where
  "links_of es =
     [(''source_name'', map (\<lambda>(sn, si, tn, ti). sn) es),
      (''source_id'', map source_of es),
      (''target_name'', map (\<lambda>(sn, si, tn, ti). tn) es),
      (''target_id'', map target_of es)]"

definition edge_row :: "edge \<Rightarrow> cell list" where
  "edge_row e = (case e of (sn, si, tn, ti) \<Rightarrow> [Str sn, Str si, Str tn, Str ti])"

text \<open>The row of the node table that lines 64--69 append for the id \<open>aid\<close> and its artist \<open>a\<close>.\<close>

definition node_row :: "string \<Rightarrow> artist_obj \<Rightarrow> cell list" where
  "node_row aid a =
     [Str aid, Str (name a), Num (followers_total a), Num (popularity a),
      Str (external_urls_spotify a), Str (url (images a ! 0))]"

subsection \<open>Example data\<close>

text \<open>A listening history with artist A played five times, B three times and C once.\<close>

definition plays_A5_B3_C1 :: "listening list" where
  "plays_A5_B3_C1 =
     (let A = \<lparr>artist = ''A'', artist_id = ''idA''\<rparr>;
          B = \<lparr>artist = ''B'', artist_id = ''idB''\<rparr>;
          C = \<lparr>artist = ''C'', artist_id = ''idC''\<rparr>
      in [C, A, B, A, A, B, A, B, A])"

definition plays_A2 :: "listening list" where
  "plays_A2 = [\<lparr>artist = ''A'', artist_id = ''idA''\<rparr>, \<lparr>artist = ''A'', artist_id = ''idA''\<rparr>]"

text \<open>
  A catalogue of three artists, each related to the two others: B to D and E, D to B and
  E, E to B and D.
\<close>

definition artist_B :: artist_obj where
  "artist_B = \<lparr>name = ''B'', id' = ''idB'', followers_total = 300, popularity = 70,
     external_urls_spotify = ''urlB'', images = [\<lparr>url = ''imgB''\<rparr>]\<rparr>"

definition artist_D :: artist_obj where
  "artist_D = \<lparr>name = ''D'', id' = ''idD'', followers_total = 200, popularity = 60,
     external_urls_spotify = ''urlD'', images = [\<lparr>url = ''imgD''\<rparr>, \<lparr>url = ''imgD2''\<rparr>]\<rparr>"

definition artist_E :: artist_obj where
  "artist_E = \<lparr>name = ''E'', id' = ''idE'', followers_total = 100, popularity = 50,
     external_urls_spotify = ''urlE'', images = [\<lparr>url = ''imgE''\<rparr>]\<rparr>"

definition catalogue :: spotify where
  "catalogue =
     \<lparr>sp_artist = (\<lambda>q. if q = ''idB'' then Some artist_B
                      else if q = ''idD'' then Some artist_D
                      else if q = ''idE'' then Some artist_E else None),
      sp_artist_related_artists =
        (\<lambda>q. if q = ''idB'' then Some \<lparr>artists = [artist_D, artist_E]\<rparr>
              else if q = ''idD'' then Some \<lparr>artists = [artist_B, artist_E]\<rparr>
              else if q = ''idE'' then Some \<lparr>artists = [artist_B, artist_D]\<rparr> else None)\<rparr>"

text \<open>The world before the script runs: nothing called yet, no file written.\<close>

definition world_init :: world where
  "world_init = \<lparr>events = [], files = (\<lambda>path. None)\<rparr>"

subsection \<open>Notions used in the properties\<close>

text \<open>The world after the events \<open>evs\<close> have happened.\<close>

definition called :: "event list \<Rightarrow> world \<Rightarrow> world" where
  "called evs w = w\<lparr>events := events w @ evs\<rparr>"

text \<open>The catalogue answers both calls that the script makes for the id \<open>q\<close>.\<close>

definition answers :: "spotify \<Rightarrow> string \<Rightarrow> bool" where
  "answers sp q = (sp_artist sp q \<noteq> None \<and> sp_artist_related_artists sp q \<noteq> None)"

text \<open>
  One edge per related artist that the catalogue returns for \<open>q\<close>, from the artist it
  returns for \<open>q\<close>.
\<close>

definition related_edges :: "spotify \<Rightarrow> string \<Rightarrow> edge list" where
  "related_edges sp q =
     (case sp_artist sp q of None \<Rightarrow> []
      | Some a \<Rightarrow>
          (case sp_artist_related_artists sp q of None \<Rightarrow> []
           | Some ra \<Rightarrow> map (edge a) (artists ra)))"

text \<open>
  The edges held after the seed and \<open>n\<close> rounds of the loop of line 39, when none of
  them raises: round \<open>n\<close> adds the edges of the target id at index \<open>n\<close>.
\<close>

fun edges_after :: "spotify \<Rightarrow> string \<Rightarrow> nat \<Rightarrow> edge list" where
  "edges_after sp seed 0 = related_edges sp seed"
| "edges_after sp seed (Suc n) =
     edges_after sp seed n @ related_edges sp (target_of (edges_after sp seed n ! n))"

text \<open>The calls and pauses made up to that point.\<close>

fun events_after :: "spotify \<Rightarrow> string \<Rightarrow> nat \<Rightarrow> event list" where
  "events_after sp seed 0 = [Artist_call seed, Related_call seed]"
| "events_after sp seed (Suc n) =
     events_after sp seed n @
     [Artist_call (target_of (edges_after sp seed n ! n)),
      Related_call (target_of (edges_after sp seed n ! n)), Sleep]"

text \<open>Round \<open>n\<close> finds a target id at index \<open>n\<close> and the catalogue answers for it.\<close>

definition expandable :: "spotify \<Rightarrow> string \<Rightarrow> nat \<Rightarrow> bool" where
  "expandable sp seed n =
     (n < length (edges_after sp seed n) \<and> answers sp (target_of (edges_after sp seed n ! n)))"

text \<open>The sheet that holds the edges \<open>es\<close> under the four column names.\<close>

definition links_sheet :: "edge list \<Rightarrow> sheet" where
  "links_sheet es =
     \<lparr>header = [''source_name'', ''source_id'', ''target_name'', ''target_id''],
      body = map edge_row es\<rparr>"

text \<open>
  The edges that a run from the seed B collects in this catalogue: those of B, then of
  the targets at indices 0 to 3, which are D, E, B and E.
\<close>

definition example_edges :: "edge list" where
  "example_edges =
     [(''B'', ''idB'', ''D'', ''idD''), (''B'', ''idB'', ''E'', ''idE''),
      (''D'', ''idD'', ''B'', ''idB''), (''D'', ''idD'', ''E'', ''idE''),
      (''E'', ''idE'', ''B'', ''idB''), (''E'', ''idE'', ''D'', ''idD''),
      (''B'', ''idB'', ''D'', ''idD''), (''B'', ''idB'', ''E'', ''idE''),
      (''E'', ''idE'', ''B'', ''idB''), (''E'', ''idE'', ''D'', ''idD'')]"

text \<open>A catalogue in which B is related to D only and D to nobody.\<close>

definition catalogue_sparse :: spotify where
  "catalogue_sparse =
     \<lparr>sp_artist = sp_artist catalogue,
      sp_artist_related_artists =
        (\<lambda>q. if q = ''idB'' then Some \<lparr>artists = [artist_D]\<rparr>
              else if q = ''idD'' then Some \<lparr>artists = []\<rparr> else None)\<rparr>"

text \<open>The dictionary of lists that holds the node rows \<open>rows\<close>, six cells each.\<close>

definition points_of :: "cell list list \<Rightarrow> cell dict_of_lists" where
  "points_of rows =
     [(''id'', map (\<lambda>r. r ! 0) rows), (''name'', map (\<lambda>r. r ! 1) rows),
      (''followers'', map (\<lambda>r. r ! 2) rows), (''popularity'', map (\<lambda>r. r ! 3) rows),
      (''url'', map (\<lambda>r. r ! 4) rows), (''image'', map (\<lambda>r. r ! 5) rows)]"

text \<open>The catalogue returns an artist for \<open>aid\<close>, with at least one image.\<close>

definition node_ok :: "spotify \<Rightarrow> string \<Rightarrow> bool" where
  "node_ok sp aid = (case sp_artist sp aid of None \<Rightarrow> False | Some a \<Rightarrow> images a \<noteq> [])"

text \<open>The node rows of the ids \<open>ids\<close>, in their order.\<close>

definition node_rows :: "spotify \<Rightarrow> string list \<Rightarrow> cell list list" where
  "node_rows sp ids = map (\<lambda>aid. node_row aid (the (sp_artist sp aid))) ids"

text \<open>The pauses and calls of the loop of line 61 over \<open>ids\<close>.\<close>

definition node_events :: "string list \<Rightarrow> event list" where
  "node_events ids = concat (map (\<lambda>aid. [Sleep, Artist_call aid]) ids)"

text \<open>The sheet that holds the node rows under the six column names.\<close>

definition points_sheet :: "cell list list \<Rightarrow> sheet" where
  "points_sheet rows =
     \<lparr>header = [''id'', ''name'', ''followers'', ''popularity'', ''url'', ''image''],
      body = rows\<rparr>"

text \<open>Line 58: the ids of the edges \<open>es\<close>, sources then targets, each listed once.\<close>

definition all_artist_ids :: "(string list \<Rightarrow> string list) \<Rightarrow> edge list \<Rightarrow> string list" where
  "all_artist_ids list_set es = list_set (map source_of es @ map target_of es)"

text \<open>The node rows of the example run, in the order \<open>remdups\<close> lists the ids.\<close>

definition example_points :: "cell list list" where
  "example_points =
     [[Str ''idE'', Str ''E'', Num 100, Num 50, Str ''urlE'', Str ''imgE''],
      [Str ''idB'', Str ''B'', Num 300, Num 70, Str ''urlB'', Str ''imgB''],
      [Str ''idD'', Str ''D'', Num 200, Num 60, Str ''urlD'', Str ''imgD'']]"

text \<open>The example catalogue, except that the artist returned for B has no images.\<close>

definition catalogue_bare :: spotify where
  "catalogue_bare =
     \<lparr>sp_artist = (\<lambda>q. if q = ''idB'' then Some (artist_B\<lparr>images := []\<rparr>)
                      else sp_artist catalogue q),
      sp_artist_related_artists = sp_artist_related_artists catalogue\<rparr>"

text \<open>The world once the edges are collected in the bare catalogue.\<close>

definition world_after_edges :: world where
  "world_after_edges = snd (edge_stage catalogue_bare ''idB'' world_init)"

text \<open>Every list of the dictionary \<open>d\<close> has length \<open>n\<close>.\<close>

definition same_length :: "'a dict_of_lists \<Rightarrow> nat \<Rightarrow> bool" where
  "same_length d n = list_all (\<lambda>col. length (snd col) = n) d"

section \<open>Properties\<close>

subsection \<open>The tally\<close>

lemma set_groups: "set (groups df) = set df"
  by (simp add: groups_def)

lemma distinct_groups: "distinct (groups df)"
  by (simp add: groups_def)

lemma length_groups: "length (groups df) = card (set df)"
  using distinct_card [OF distinct_groups, of df] by (simp add: set_groups)

lemma length_value_counts: "length (value_counts df) = card (set df)"
  by (simp add: value_counts_def length_groups)

lemma keys_value_counts:
  "set (map fst (value_counts df)) = set df \<and> distinct (map fst (value_counts df))"
proof -
  let ?rows = "map (\<lambda>g. (g, count_list df g)) (groups df)"
  have m: "mset (value_counts df) = mset ?rows"
    by (simp add: value_counts_def)
  have "mset (map fst (value_counts df)) = mset (map fst ?rows)"
    using m by (metis mset_map)
  also have "map fst ?rows = groups df"
    by (simp add: comp_def)
  finally have k: "mset (map fst (value_counts df)) = mset (groups df)" .
  have "set (map fst (value_counts df)) = set (groups df)"
    using k by (rule mset_eq_setD)
  moreover have "distinct (map fst (value_counts df))"
    using k distinct_groups [of df] by (metis mset_eq_imp_distinct_iff)
  ultimately show ?thesis by (simp add: set_groups)
qed

lemma counts_value_counts:
  "row \<in> set (value_counts df) \<Longrightarrow> snd row = count_list df (fst row)"
  by (auto simp: value_counts_def)

lemma sorted_value_counts:
  "i \<le> j \<Longrightarrow> j < length (value_counts df) \<Longrightarrow>
   snd (value_counts df ! j) \<le> snd (value_counts df ! i)"
proof -
  assume ij: "i \<le> j" and j: "j < length (value_counts df)"
  let ?f = "\<lambda>row :: listening \<times> nat. - int (snd row)"
  have "sorted (map ?f (value_counts df))"
    unfolding value_counts_def by (rule sorted_sort_key)
  then have "map ?f (value_counts df) ! i \<le> map ?f (value_counts df) ! j"
    using ij j by (simp add: sorted_iff_nth_mono del: nth_map)
  then show ?thesis using ij j by simp
qed

subsection \<open>Seed selection\<close>

lemma topArtist_few_groups: "card (set df) < 2 \<Longrightarrow> topArtist df = Inl KeyError"
  by (simp add: topArtist_def series_at_def length_value_counts)

text \<open>
  Claim C1. When the listening history has at least two distinct (artist, artist id)
  groups, the tally has one row per group with the number of its occurrences, the counts
  never increase down the table, and the seed is the artist id of the row at position 1,
  the second row, not the first.
\<close>

theorem seed_is_second_row_of_tally:
  assumes "2 \<le> card (set df)"
  shows "set (map fst (value_counts df)) = set df
       \<and> distinct (map fst (value_counts df))
       \<and> (\<forall>row \<in> set (value_counts df). snd row = count_list df (fst row))
       \<and> (\<forall>i j. i \<le> j \<and> j < length (value_counts df) \<longrightarrow>
             snd (value_counts df ! j) \<le> snd (value_counts df ! i))
       \<and> topArtist df = Inr (artist_id (fst (value_counts df ! 1)))"
proof -
  have "1 < length (value_counts df)"
    using assms by (simp add: length_value_counts)
  then have "topArtist df = Inr (artist_id (fst (value_counts df ! 1)))"
    by (simp add: topArtist_def series_at_def)
  then show ?thesis
    using keys_value_counts [of df] counts_value_counts [of _ df] sorted_value_counts [of _ _ df]
    by blast
qed

text \<open>
  For A (5 plays), B (3 plays) and C (1 play) the tally is A, B, C and the seed is B.
\<close>

theorem seed_is_second_row_of_tally_witness:
  "2 \<le> card (set plays_A5_B3_C1)
   \<and> value_counts plays_A5_B3_C1 =
       [(\<lparr>artist = ''A'', artist_id = ''idA''\<rparr>, 5), (\<lparr>artist = ''B'', artist_id = ''idB''\<rparr>, 3),
        (\<lparr>artist = ''C'', artist_id = ''idC''\<rparr>, 1)]
   \<and> topArtist plays_A5_B3_C1 = Inr ''idB''"
proof -
  have c: "2 \<le> card (set plays_A5_B3_C1)"
    by code_simp
  have t: "value_counts plays_A5_B3_C1 =
       [(\<lparr>artist = ''A'', artist_id = ''idA''\<rparr>, 5), (\<lparr>artist = ''B'', artist_id = ''idB''\<rparr>, 3),
        (\<lparr>artist = ''C'', artist_id = ''idC''\<rparr>, 1)]"
    by code_simp
  have "topArtist plays_A5_B3_C1 = Inr (artist_id (fst (value_counts plays_A5_B3_C1 ! 1)))"
    using seed_is_second_row_of_tally [OF c] by blast
  then show ?thesis using c t by simp
qed

text \<open>
  Claim C6. When the listening history has fewer than two distinct (artist, artist id)
  groups, reading row 1 of the tally is out of the range of its rows and raises: the
  run ends there with that exception, before any call of the catalogue and before any
  file is written, and no seed is selected.
\<close>

theorem seed_selection_fails_below_two_groups:
  assumes "card (set df) < 2"
  shows "topArtist df = Inl KeyError \<and> run sp list_set df w = (Inl KeyError, w)"
  using topArtist_few_groups [OF assms] by (simp add: run_def and_then_def lift_def)

theorem seed_selection_fails_below_two_groups_witness:
  "card (set plays_A2) < 2
   \<and> topArtist plays_A2 = Inl KeyError
   \<and> run catalogue remdups plays_A2 world_init = (Inl KeyError, world_init)"
proof -
  have c: "card (set plays_A2) < 2"
    by (simp add: plays_A2_def)
  show ?thesis
    using c seed_selection_fails_below_two_groups [OF c] by blast
qed

subsection \<open>Statements in sequence, the two loops of the edges\<close>

lemma and_then_lift_Inr: "and_then (lift (Inr x)) f w = f x w"
  by (simp add: and_then_def lift_def)

lemma and_then_lift_Inl: "and_then (lift (Inl e)) f w = (Inl e, w)"
  by (simp add: and_then_def lift_def)

lemma and_then_return: "and_then (return x) f w = f x w"
  by (simp add: and_then_def return_def)

lemma and_then_Inr: "m w = (Inr x, w') \<Longrightarrow> and_then m f w = f x w'"
  by (simp add: and_then_def)

lemma and_then_Inl: "m w = (Inl e, w') \<Longrightarrow> and_then m f w = (Inl e, w')"
  by (simp add: and_then_def)

lemma append_link_links_of:
  "append_link a r (links_of es) w = (Inr (links_of (es @ [edge a r])), w)"
  by (simp add: append_link_def links_of_def and_then_lift_Inr lift_def edge_def
      source_of_def target_of_def)

lemma for_each_append_link:
  "for_each rs (append_link a) (links_of es) w = (Inr (links_of (es @ map (edge a) rs)), w)"
proof (induction rs arbitrary: es)
  case Nil
  show ?case by (simp add: return_def)
next
  case (Cons r rs)
  show ?case
    by (simp add: and_then_Inr [OF append_link_links_of] Cons.IH)
qed

lemma links_dict_init_links_of: "links_dict_init = links_of []"
  by (simp add: links_dict_init_def links_of_def)

lemma getitem_target_id: "getitem (links_of es) ''target_id'' = Inr (map target_of es)"
  by (simp add: getitem_def links_of_def)

lemma getitem_source_id: "getitem (links_of es) ''source_id'' = Inr (map source_of es)"
  by (simp add: getitem_def links_of_def)

lemma called_called: "called evs (called evs' w) = called (evs' @ evs) w"
  by (simp add: called_def)

lemma and_then_artist_call:
  "and_then (artist_call sp q) f w =
     (case sp_artist sp q of None \<Rightarrow> (Inl SpotifyException, called [Artist_call q] w)
      | Some a \<Rightarrow> f a (called [Artist_call q] w))"
  by (simp add: and_then_def artist_call_def called_def split: option.splits)

lemma and_then_related_call:
  "and_then (related_call sp q) f w =
     (case sp_artist_related_artists sp q of
        None \<Rightarrow> (Inl SpotifyException, called [Related_call q] w)
      | Some ra \<Rightarrow> f ra (called [Related_call q] w))"
  by (simp add: and_then_def related_call_def called_def split: option.splits)

lemma and_then_sleep: "and_then sleep f w = f () (called [Sleep] w)"
  by (simp add: and_then_def sleep_def called_def)

lemma seed_links_eq:
  "seed_links sp seed w =
     (case sp_artist sp seed of
        None \<Rightarrow> (Inl SpotifyException, called [Artist_call seed] w)
      | Some a \<Rightarrow>
          (case sp_artist_related_artists sp seed of
             None \<Rightarrow> (Inl SpotifyException, called [Artist_call seed, Related_call seed] w)
           | Some ra \<Rightarrow>
               (Inr (links_of (map (edge a) (artists ra))),
                called [Artist_call seed, Related_call seed] w)))"
  by (simp add: seed_links_def and_then_artist_call and_then_related_call called_called
      links_dict_init_links_of for_each_append_link split: option.splits)

lemma expansion_body_eq:
  "expansion_body sp i (links_of es) w =
     (if i < length es then
        (let q = target_of (es ! i) in
         case sp_artist sp q of
           None \<Rightarrow> (Inl SpotifyException, called [Artist_call q] w)
         | Some a \<Rightarrow>
             (case sp_artist_related_artists sp q of
                None \<Rightarrow> (Inl SpotifyException, called [Artist_call q, Related_call q] w)
              | Some ra \<Rightarrow>
                  (Inr (links_of (es @ map (edge a) (artists ra))),
                   called [Artist_call q, Related_call q, Sleep] w)))
      else (Inl IndexError, w))"
  by (simp add: expansion_body_def getitem_target_id and_then_lift_Inr list_at_def Let_def
      and_then_lift_Inl and_then_artist_call and_then_related_call and_then_sleep
      called_called for_each_append_link split: option.splits)

lemma seed_links_Inr:
  assumes "seed_links sp seed w = (Inr d, w')"
  shows "answers sp seed \<and> d = links_of (related_edges sp seed)
       \<and> w' = called [Artist_call seed, Related_call seed] w"
  using assms
  by (auto simp: seed_links_eq answers_def related_edges_def split: option.splits)

lemma expansion_body_Inr:
  assumes "expansion_body sp i (links_of es) w = (Inr d, w')"
  shows "i < length es \<and> answers sp (target_of (es ! i))
       \<and> d = links_of (es @ related_edges sp (target_of (es ! i)))
       \<and> w' = called [Artist_call (target_of (es ! i)), Related_call (target_of (es ! i)), Sleep] w"
  using assms
  by (auto simp: expansion_body_eq answers_def related_edges_def Let_def
      split: option.splits if_splits)

lemma for_each_Cons_Inr:
  "for_each (x # xs) f s w = (Inr s', w') \<longleftrightarrow>
     (\<exists>s1 w1. f x s w = (Inr s1, w1) \<and> for_each xs f s1 w1 = (Inr s', w'))"
  by (auto simp: and_then_def split: prod.splits sum.splits)

lemma and_then_Inr_iff:
  "and_then m f w = (Inr y, w') \<longleftrightarrow> (\<exists>x w1. m w = (Inr x, w1) \<and> f x w1 = (Inr y, w'))"
  by (auto simp: and_then_def split: prod.splits sum.splits)

lemma expansion_step:
  assumes "expansion_body sp n (links_of (edges_after sp seed n))
             (called (events_after sp seed n) w) = (Inr d, w')"
  shows "expandable sp seed n \<and> d = links_of (edges_after sp seed (Suc n))
       \<and> w' = called (events_after sp seed (Suc n)) w"
  using expansion_body_Inr [OF assms] by (simp add: expandable_def called_called)

lemma expansion_loop_Inr:
  "for_each [n..<n + k] (expansion_body sp) (links_of (edges_after sp seed n))
     (called (events_after sp seed n) w) = (Inr d, w') \<Longrightarrow>
   (\<forall>j. n \<le> j \<and> j < n + k \<longrightarrow> expandable sp seed j)
   \<and> d = links_of (edges_after sp seed (n + k))
   \<and> w' = called (events_after sp seed (n + k)) w"
proof (induction k arbitrary: n)
  case 0
  then show ?case by (auto simp: return_def)
next
  case (Suc k)
  have u: "[n..<n + Suc k] = n # [Suc n..<Suc n + k]"
    by (simp add: upt_conv_Cons)
  from Suc.prems obtain s1 w1 where
    b: "expansion_body sp n (links_of (edges_after sp seed n))
          (called (events_after sp seed n) w) = (Inr s1, w1)"
    and r: "for_each [Suc n..<Suc n + k] (expansion_body sp) s1 w1 = (Inr d, w')"
    unfolding u for_each_Cons_Inr by blast
  note st = expansion_step [OF b]
  from r st have
    "for_each [Suc n..<Suc n + k] (expansion_body sp) (links_of (edges_after sp seed (Suc n)))
       (called (events_after sp seed (Suc n)) w) = (Inr d, w')"
    by simp
  from Suc.IH [OF this] have ih:
    "(\<forall>j. Suc n \<le> j \<and> j < Suc n + k \<longrightarrow> expandable sp seed j)"
    "d = links_of (edges_after sp seed (Suc n + k))"
    "w' = called (events_after sp seed (Suc n + k)) w"
    by blast+
  have "\<forall>j. n \<le> j \<and> j < n + Suc k \<longrightarrow> expandable sp seed j"
  proof (intro allI impI)
    fix j assume "n \<le> j \<and> j < n + Suc k"
    then have "j = n \<or> (Suc n \<le> j \<and> j < Suc n + k)" by arith
    then show "expandable sp seed j" using st ih(1) by blast
  qed
  then show ?case using ih(2,3) by simp
qed

lemma DataFrame_links_of: "DataFrame (links_of es) = Inr (links_of es)"
  by (simp add: DataFrame_def links_of_def)

lemma header_cells_links_of:
  "map fst (cells (links_of es)) = [''source_name'', ''source_id'', ''target_name'', ''target_id'']"
  by (simp add: cells_def links_of_def)

lemma frame_rows_cells_links_of: "frame_rows (cells (links_of es)) = map edge_row es"
proof (rule nth_equalityI)
  show "length (frame_rows (cells (links_of es))) = length (map edge_row es)"
    by (simp add: frame_rows_def cells_def links_of_def)
next
  fix i assume "i < length (frame_rows (cells (links_of es)))"
  then have i: "i < length es"
    by (simp add: frame_rows_def cells_def links_of_def)
  then show "frame_rows (cells (links_of es)) ! i = map edge_row es ! i"
    by (simp add: frame_rows_def cells_def links_of_def edge_row_def source_of_def
        target_of_def split: prod.splits)
qed

lemma to_excel_links:
  "to_excel (cells (links_of es)) path False w =
     (Inr (), w\<lparr>files := (files w)(path \<mapsto> links_sheet es)\<rparr>)"
  by (simp add: to_excel_def header_cells_links_of frame_rows_cells_links_of links_sheet_def)

lemma edge_stage_Inr:
  assumes "edge_stage sp seed w = (Inr links_dict, w')"
  shows "answers sp seed \<and> (\<forall>j<4. expandable sp seed j)
       \<and> links_dict = links_of (edges_after sp seed 4)
       \<and> w' = (called (events_after sp seed 4) w)
               \<lparr>files := (files w)(''links.xlsx'' \<mapsto> links_sheet (edges_after sp seed 4))\<rparr>"
proof -
  from assms obtain d0 w0 d4 w4 where
    s: "seed_links sp seed w = (Inr d0, w0)"
    and l: "for_each [0..<4] (expansion_body sp) d0 w0 = (Inr d4, w4)"
    and r: "and_then (lift (DataFrame d4)) (\<lambda>links.
              and_then (to_excel (cells links) ''links.xlsx'' False) (\<lambda>_. return d4)) w4
            = (Inr links_dict, w')"
    unfolding edge_stage_def and_then_Inr_iff by blast
  from seed_links_Inr [OF s] have s': "answers sp seed"
    "d0 = links_of (edges_after sp seed 0)" "w0 = called (events_after sp seed 0) w"
    by simp_all
  have "for_each [0..<0 + 4] (expansion_body sp) (links_of (edges_after sp seed 0))
          (called (events_after sp seed 0) w) = (Inr d4, w4)"
    using l s' by simp
  from expansion_loop_Inr [OF this] have l':
    "\<forall>j<4. expandable sp seed j" "d4 = links_of (edges_after sp seed 4)"
    "w4 = called (events_after sp seed 4) w"
    by simp_all
  from r have "links_dict = d4 \<and>
     w' = w4\<lparr>files := (files w4)(''links.xlsx'' \<mapsto> links_sheet (edges_after sp seed 4))\<rparr>"
    by (simp add: l'(2) DataFrame_links_of and_then_lift_Inr and_then_Inr [OF to_excel_links]
        return_def)
  then show ?thesis using s'(1) l' by (simp add: called_def)
qed

subsection \<open>The edge table\<close>

lemma related_edges_answers:
  assumes "answers sp q"
  obtains a ra where "sp_artist sp q = Some a" "sp_artist_related_artists sp q = Some ra"
    "related_edges sp q = map (edge a) (artists ra)"
  using assms by (auto simp: answers_def related_edges_def)

lemma edge_row_edge:
  "map edge_row (map (edge a) rs) =
   map (\<lambda>r. [Str (name a), Str (id' a), Str (name r), Str (id' r)]) rs"
  by (simp add: edge_row_def edge_def)

lemma edges_after_4:
  "edges_after sp seed 4 =
     related_edges sp seed
     @ related_edges sp (target_of (edges_after sp seed 0 ! 0))
     @ related_edges sp (target_of (edges_after sp seed 1 ! 1))
     @ related_edges sp (target_of (edges_after sp seed 2 ! 2))
     @ related_edges sp (target_of (edges_after sp seed 3 ! 3))"
proof -
  have "edges_after sp seed 4 = edges_after sp seed (Suc (Suc (Suc (Suc 0))))"
    by (simp add: eval_nat_numeral)
  also have "\<dots> = edges_after sp seed 0
     @ related_edges sp (target_of (edges_after sp seed 0 ! 0))
     @ related_edges sp (target_of (edges_after sp seed (Suc 0) ! Suc 0))
     @ related_edges sp (target_of (edges_after sp seed (Suc (Suc 0)) ! Suc (Suc 0)))
     @ related_edges sp (target_of (edges_after sp seed (Suc (Suc (Suc 0))) ! Suc (Suc (Suc 0))))"
    by (simp only: edges_after.simps append_assoc)
  finally show ?thesis by (simp add: eval_nat_numeral del: edges_after.simps(2))
qed

text \<open>
  Claim C2. When the edges are collected without an exception, five ids were queried,
  the seed first, the catalogue answered both calls for each of them, and the rows of
  the edge table are, in order, one row per related artist returned for each of the five:
  name and id of the artist returned for the queried id, then name and id of the
  related artist. The number of rows is the number of related artists returned over the
  five queries.
\<close>

theorem edge_rows_one_per_related_artist:
  assumes "edge_stage sp seed w = (Inr links_dict, w')"
  shows "\<exists>qs as ras. length qs = 5 \<and> hd qs = seed
      \<and> map (sp_artist sp) qs = map Some as
      \<and> map (sp_artist_related_artists sp) qs = map Some ras
      \<and> frame_rows (cells links_dict) =
          concat (map2 (\<lambda>a ra. map (\<lambda>r. [Str (name a), Str (id' a), Str (name r), Str (id' r)])
                                 (artists ra)) as ras)
      \<and> length (frame_rows (cells links_dict)) = sum_list (map (\<lambda>ra. length (artists ra)) ras)"
proof -
  let ?q1 = "target_of (edges_after sp seed 0 ! 0)"
  let ?q2 = "target_of (edges_after sp seed 1 ! 1)"
  let ?q3 = "target_of (edges_after sp seed 2 ! 2)"
  let ?q4 = "target_of (edges_after sp seed 3 ! 3)"
  from edge_stage_Inr [OF assms] have a0: "answers sp seed"
    and ex: "\<forall>j<4. expandable sp seed j"
    and ld: "links_dict = links_of (edges_after sp seed 4)"
    by blast+
  from ex have "expandable sp seed 0" "expandable sp seed 1" "expandable sp seed 2"
    "expandable sp seed 3"
    by simp_all
  then have "answers sp ?q1" "answers sp ?q2" "answers sp ?q3" "answers sp ?q4"
    unfolding expandable_def by blast+
  then obtain a1 r1 a2 r2 a3 r3 a4 r4 where
    q1: "sp_artist sp ?q1 = Some a1" "sp_artist_related_artists sp ?q1 = Some r1"
      "related_edges sp ?q1 = map (edge a1) (artists r1)" and
    q2: "sp_artist sp ?q2 = Some a2" "sp_artist_related_artists sp ?q2 = Some r2"
      "related_edges sp ?q2 = map (edge a2) (artists r2)" and
    q3: "sp_artist sp ?q3 = Some a3" "sp_artist_related_artists sp ?q3 = Some r3"
      "related_edges sp ?q3 = map (edge a3) (artists r3)" and
    q4: "sp_artist sp ?q4 = Some a4" "sp_artist_related_artists sp ?q4 = Some r4"
      "related_edges sp ?q4 = map (edge a4) (artists r4)"
    by (metis related_edges_answers)
  from a0 obtain a0' r0 where
    q0: "sp_artist sp seed = Some a0'" "sp_artist_related_artists sp seed = Some r0"
      "related_edges sp seed = map (edge a0') (artists r0)"
    by (rule related_edges_answers)
  have rows: "frame_rows (cells links_dict) =
      map edge_row (map (edge a0') (artists r0)) @ map edge_row (map (edge a1) (artists r1))
      @ map edge_row (map (edge a2) (artists r2)) @ map edge_row (map (edge a3) (artists r3))
      @ map edge_row (map (edge a4) (artists r4))"
    unfolding ld frame_rows_cells_links_of edges_after_4 q0(3) q1(3) q2(3) q3(3) q4(3)
    by simp
  show ?thesis
  proof (intro exI conjI)
    show "length [seed, ?q1, ?q2, ?q3, ?q4] = 5" by simp
    show "hd [seed, ?q1, ?q2, ?q3, ?q4] = seed" by simp
    show "map (sp_artist sp) [seed, ?q1, ?q2, ?q3, ?q4] = map Some [a0', a1, a2, a3, a4]"
      using q0(1) q1(1) q2(1) q3(1) q4(1) by simp
    show "map (sp_artist_related_artists sp) [seed, ?q1, ?q2, ?q3, ?q4]
          = map Some [r0, r1, r2, r3, r4]"
      using q0(2) q1(2) q2(2) q3(2) q4(2) by simp
    show "frame_rows (cells links_dict) =
          concat (map2 (\<lambda>a ra. map (\<lambda>r. [Str (name a), Str (id' a), Str (name r), Str (id' r)])
                                 (artists ra)) [a0', a1, a2, a3, a4] [r0, r1, r2, r3, r4])"
      unfolding rows edge_row_edge by simp
    show "length (frame_rows (cells links_dict))
          = sum_list (map (\<lambda>ra. length (artists ra)) [r0, r1, r2, r3, r4])"
      unfolding rows by simp
  qed
qed

lemma example_edge_stage:
  "fst (edge_stage catalogue ''idB'' world_init) = Inr (links_of example_edges)"
  by code_simp

lemma example_edge_events:
  "events (snd (edge_stage catalogue ''idB'' world_init)) =
     [Artist_call ''idB'', Related_call ''idB'',
      Artist_call ''idD'', Related_call ''idD'', Sleep,
      Artist_call ''idE'', Related_call ''idE'', Sleep,
      Artist_call ''idB'', Related_call ''idB'', Sleep,
      Artist_call ''idE'', Related_call ''idE'', Sleep]"
  by code_simp

text \<open>
  In the example catalogue the seed B and the targets D, E, B, E are queried, each with
  two related artists: ten rows.
\<close>

theorem edge_rows_one_per_related_artist_witness:
  "edge_stage catalogue ''idB'' world_init =
     (Inr (links_of example_edges), snd (edge_stage catalogue ''idB'' world_init))
   \<and> (\<exists>qs as ras. length qs = 5 \<and> hd qs = ''idB''
      \<and> map (sp_artist catalogue) qs = map Some as
      \<and> map (sp_artist_related_artists catalogue) qs = map Some ras
      \<and> frame_rows (cells (links_of example_edges)) =
          concat (map2 (\<lambda>a ra. map (\<lambda>r. [Str (name a), Str (id' a), Str (name r), Str (id' r)])
                                 (artists ra)) as ras)
      \<and> length (frame_rows (cells (links_of example_edges)))
          = sum_list (map (\<lambda>ra. length (artists ra)) ras))
   \<and> length (frame_rows (cells (links_of example_edges))) = 10"
proof -
  have h: "edge_stage catalogue ''idB'' world_init =
     (Inr (links_of example_edges), snd (edge_stage catalogue ''idB'' world_init))"
    using example_edge_stage by (simp add: prod_eq_iff)
  have n: "length (frame_rows (cells (links_of example_edges))) = 10"
    by code_simp
  show ?thesis
    using h n edge_rows_one_per_related_artist [OF h] by blast
qed

subsection \<open>The order of the queries\<close>

lemma seed_links_answers:
  "answers sp seed \<Longrightarrow>
   seed_links sp seed w =
     (Inr (links_of (edges_after sp seed 0)), called (events_after sp seed 0) w)"
  by (auto simp: seed_links_eq answers_def related_edges_def)

lemma expansion_body_expandable:
  "expandable sp seed n \<Longrightarrow>
   expansion_body sp n (links_of (edges_after sp seed n)) (called (events_after sp seed n) w) =
     (Inr (links_of (edges_after sp seed (Suc n))), called (events_after sp seed (Suc n)) w)"
  by (auto simp: expansion_body_eq expandable_def answers_def related_edges_def Let_def
      called_called)

lemma events_called: "events (called evs w) = events w @ evs"
  by (simp add: called_def)

text \<open>
  Claim C3. In a run that collects the edges without an exception the catalogue is
  queried once for the seed and then in exactly four rounds: round \<open>i\<close> (0 to 3) starts
  from the dictionary as the rounds before left it, reads the target id at index \<open>i\<close>
  of that dictionary, makes its two calls for that id and pauses. There is no queue of
  ids to visit and no record of ids visited: in the example catalogue round 2 queries
  the seed B again and round 3 queries E again, and their edges are in the table twice.
\<close>

theorem expansion_queries_targets_by_index:
  "(edge_stage sp seed w = (Inr links_dict, w') \<longrightarrow>
      (\<exists>ds ws. length ds = 5 \<and> length ws = 5
         \<and> seed_links sp seed w = (Inr (ds ! 0), ws ! 0)
         \<and> events (ws ! 0) = events w @ [Artist_call seed, Related_call seed]
         \<and> (\<forall>i<4. \<exists>tids. getitem (ds ! i) ''target_id'' = Inr tids \<and> i < length tids
                \<and> expansion_body sp i (ds ! i) (ws ! i) = (Inr (ds ! Suc i), ws ! Suc i)
                \<and> events (ws ! Suc i) =
                    events (ws ! i) @ [Artist_call (tids ! i), Related_call (tids ! i), Sleep])
         \<and> links_dict = ds ! 4 \<and> events w' = events (ws ! 4)))
   \<and> fst (edge_stage catalogue ''idB'' world_init) = Inr (links_of example_edges)
   \<and> events (snd (edge_stage catalogue ''idB'' world_init)) =
       [Artist_call ''idB'', Related_call ''idB'',
        Artist_call ''idD'', Related_call ''idD'', Sleep,
        Artist_call ''idE'', Related_call ''idE'', Sleep,
        Artist_call ''idB'', Related_call ''idB'', Sleep,
        Artist_call ''idE'', Related_call ''idE'', Sleep]
   \<and> \<not> distinct (frame_rows (cells (links_of example_edges)))"
proof (intro conjI impI)
  assume run: "edge_stage sp seed w = (Inr links_dict, w')"
  let ?ds = "map (\<lambda>j. links_of (edges_after sp seed j)) [0..<5]"
  let ?ws = "map (\<lambda>j. called (events_after sp seed j) w) [0..<5]"
  from edge_stage_Inr [OF run] have a0: "answers sp seed"
    and ex: "\<forall>j<4. expandable sp seed j"
    and ld: "links_dict = links_of (edges_after sp seed 4)"
    and w': "w' = (called (events_after sp seed 4) w)
               \<lparr>files := (files w)(''links.xlsx'' \<mapsto> links_sheet (edges_after sp seed 4))\<rparr>"
    by blast+
  have step: "\<exists>tids. getitem (?ds ! i) ''target_id'' = Inr tids \<and> i < length tids
                \<and> expansion_body sp i (?ds ! i) (?ws ! i) = (Inr (?ds ! Suc i), ?ws ! Suc i)
                \<and> events (?ws ! Suc i) =
                    events (?ws ! i) @ [Artist_call (tids ! i), Related_call (tids ! i), Sleep]"
    if i: "i < 4" for i
  proof -
    from ex i have e: "expandable sp seed i" by simp
    then have len: "i < length (edges_after sp seed i)" by (simp add: expandable_def)
    have di: "?ds ! i = links_of (edges_after sp seed i)"
      "?ds ! Suc i = links_of (edges_after sp seed (Suc i))"
      "?ws ! i = called (events_after sp seed i) w"
      "?ws ! Suc i = called (events_after sp seed (Suc i)) w"
      using i by (simp_all del: upt_Suc edges_after.simps events_after.simps)
    show ?thesis
    proof (intro exI conjI)
      show "getitem (?ds ! i) ''target_id'' = Inr (map target_of (edges_after sp seed i))"
        unfolding di by (rule getitem_target_id)
      show "i < length (map target_of (edges_after sp seed i))"
        using len by simp
      show "expansion_body sp i (?ds ! i) (?ws ! i) = (Inr (?ds ! Suc i), ?ws ! Suc i)"
        unfolding di by (rule expansion_body_expandable [OF e])
      show "events (?ws ! Suc i) = events (?ws ! i) @
              [Artist_call (map target_of (edges_after sp seed i) ! i),
               Related_call (map target_of (edges_after sp seed i) ! i), Sleep]"
        unfolding di using len by (simp add: events_called)
    qed
  qed
  show "\<exists>ds ws. length ds = 5 \<and> length ws = 5
         \<and> seed_links sp seed w = (Inr (ds ! 0), ws ! 0)
         \<and> events (ws ! 0) = events w @ [Artist_call seed, Related_call seed]
         \<and> (\<forall>i<4. \<exists>tids. getitem (ds ! i) ''target_id'' = Inr tids \<and> i < length tids
                \<and> expansion_body sp i (ds ! i) (ws ! i) = (Inr (ds ! Suc i), ws ! Suc i)
                \<and> events (ws ! Suc i) =
                    events (ws ! i) @ [Artist_call (tids ! i), Related_call (tids ! i), Sleep])
         \<and> links_dict = ds ! 4 \<and> events w' = events (ws ! 4)"
  proof (intro exI [of _ ?ds] exI [of _ ?ws] conjI allI impI)
    show "length ?ds = 5" by simp
    show "length ?ws = 5" by simp
    show "seed_links sp seed w = (Inr (?ds ! 0), ?ws ! 0)"
      using seed_links_answers [OF a0, of w]
      by (simp del: upt_Suc edges_after.simps events_after.simps)
    show "events (?ws ! 0) = events w @ [Artist_call seed, Related_call seed]"
      by (simp add: events_called del: upt_Suc)
    show "links_dict = ?ds ! 4"
      unfolding ld by (simp del: upt_Suc edges_after.simps)
    show "events w' = events (?ws ! 4)"
      unfolding w' by (simp add: called_def del: upt_Suc events_after.simps)
  next
    fix i :: nat assume "i < 4"
    then show "\<exists>tids. getitem (?ds ! i) ''target_id'' = Inr tids \<and> i < length tids
                \<and> expansion_body sp i (?ds ! i) (?ws ! i) = (Inr (?ds ! Suc i), ?ws ! Suc i)
                \<and> events (?ws ! Suc i) =
                    events (?ws ! i) @ [Artist_call (tids ! i), Related_call (tids ! i), Sleep]"
      by (rule step)
  qed
next
  show "fst (edge_stage catalogue ''idB'' world_init) = Inr (links_of example_edges)"
    by (rule example_edge_stage)
  show "events (snd (edge_stage catalogue ''idB'' world_init)) =
       [Artist_call ''idB'', Related_call ''idB'',
        Artist_call ''idD'', Related_call ''idD'', Sleep,
        Artist_call ''idE'', Related_call ''idE'', Sleep,
        Artist_call ''idB'', Related_call ''idB'', Sleep,
        Artist_call ''idE'', Related_call ''idE'', Sleep]"
    by (rule example_edge_events)
  show "\<not> distinct (frame_rows (cells (links_of example_edges)))"
    by code_simp
qed

theorem expansion_queries_targets_by_index_witness:
  "edge_stage catalogue ''idB'' world_init =
     (Inr (links_of example_edges), snd (edge_stage catalogue ''idB'' world_init))
   \<and> (\<exists>ds ws. length ds = 5 \<and> length ws = 5
         \<and> seed_links catalogue ''idB'' world_init = (Inr (ds ! 0), ws ! 0)
         \<and> events (ws ! 0) = events world_init @ [Artist_call ''idB'', Related_call ''idB'']
         \<and> (\<forall>i<4. \<exists>tids. getitem (ds ! i) ''target_id'' = Inr tids \<and> i < length tids
                \<and> expansion_body catalogue i (ds ! i) (ws ! i) = (Inr (ds ! Suc i), ws ! Suc i)
                \<and> events (ws ! Suc i) =
                    events (ws ! i) @ [Artist_call (tids ! i), Related_call (tids ! i), Sleep])
         \<and> links_of example_edges = ds ! 4
         \<and> events (snd (edge_stage catalogue ''idB'' world_init)) = events (ws ! 4))"
proof -
  have h: "edge_stage catalogue ''idB'' world_init =
     (Inr (links_of example_edges), snd (edge_stage catalogue ''idB'' world_init))"
    using example_edge_stage by (simp add: prod_eq_iff)
  show ?thesis
    by (rule conjI [OF h expansion_queries_targets_by_index [THEN conjunct1, THEN mp, OF h]])
qed

subsection \<open>Too few targets\<close>

lemma for_each_append:
  "for_each (xs @ ys) f s w = and_then (for_each xs f s) (for_each ys f) w"
proof (induction xs arbitrary: s w)
  case Nil
  show ?case by (simp add: and_then_return)
next
  case (Cons x xs)
  show ?case
    by (simp add: and_then_def Cons.IH split: prod.splits sum.splits)
qed

lemma expansion_body_short:
  assumes "getitem d ''target_id'' = Inr tids" "length tids \<le> i"
  shows "expansion_body sp i d w = (Inl IndexError, w)"
  using assms
  by (simp add: expansion_body_def and_then_lift_Inr list_at_def and_then_lift_Inl)

text \<open>
  Claim C9. When round \<open>i\<close> of the loop of line 39 starts and the list of target ids
  collected so far has at most \<open>i\<close> entries, the read of index \<open>i\<close> raises
  \<open>IndexError\<close> before any call of that round is made, and the loop and the run end
  with that exception.
\<close>

theorem expansion_reads_out_of_range:
  assumes "topArtist df = Inr seed"
    and "seed_links sp seed w = (Inr d0, w0)"
    and "i < 4"
    and "for_each [0..<i] (expansion_body sp) d0 w0 = (Inr d, w1)"
    and "getitem d ''target_id'' = Inr tids"
    and "length tids \<le> i"
  shows "expansion_body sp i d w1 = (Inl IndexError, w1)
       \<and> for_each [0..<4] (expansion_body sp) d0 w0 = (Inl IndexError, w1)
       \<and> run sp list_set df w = (Inl IndexError, w1)"
proof -
  have b: "expansion_body sp i d w1 = (Inl IndexError, w1)"
    using assms(5,6) by (rule expansion_body_short)
  have "[0..<i + (4 - i)] = [0..<i] @ [i..<i + (4 - i)]"
    by (rule upt_add_eq_append) simp
  then have u: "[0..<4] = [0..<i] @ i # [Suc i..<4]"
    using assms(3) by (simp add: upt_conv_Cons)
  have l: "for_each [0..<4] (expansion_body sp) d0 w0 = (Inl IndexError, w1)"
    unfolding u for_each_append
    by (simp add: and_then_Inr [where m = "for_each [0..<i] (expansion_body sp) d0", OF assms(4)]
        and_then_Inl [where m = "expansion_body sp i d", OF b])
  have "edge_stage sp seed w = (Inl IndexError, w1)"
    unfolding edge_stage_def
    by (simp add: and_then_Inr [where m = "seed_links sp seed", OF assms(2)]
        and_then_Inl [where m = "for_each [0..<4] (expansion_body sp) d0", OF l])
  then have "run sp list_set df w = (Inl IndexError, w1)"
    unfolding run_def
    by (simp add: assms(1) and_then_lift_Inr and_then_Inl [where m = "edge_stage sp seed"])
  with b l show ?thesis by simp
qed

text \<open>
  In the sparse catalogue the seed B has one related artist, D, and D has none: round 1
  finds one target id and fails.
\<close>

theorem expansion_reads_out_of_range_witness:
  "topArtist plays_A5_B3_C1 = Inr ''idB''
   \<and> seed_links catalogue_sparse ''idB'' world_init =
       (Inr (links_of [(''B'', ''idB'', ''D'', ''idD'')]),
        snd (seed_links catalogue_sparse ''idB'' world_init))
   \<and> (1::nat) < 4
   \<and> for_each [0..<1] (expansion_body catalogue_sparse)
        (links_of [(''B'', ''idB'', ''D'', ''idD'')])
        (snd (seed_links catalogue_sparse ''idB'' world_init)) =
       (Inr (links_of [(''B'', ''idB'', ''D'', ''idD'')]),
        snd (for_each [0..<1] (expansion_body catalogue_sparse)
          (links_of [(''B'', ''idB'', ''D'', ''idD'')])
          (snd (seed_links catalogue_sparse ''idB'' world_init))))
   \<and> getitem (links_of [(''B'', ''idB'', ''D'', ''idD'')]) ''target_id'' = Inr [''idD'']
   \<and> length [''idD''] \<le> (1::nat)
   \<and> fst (run catalogue_sparse remdups plays_A5_B3_C1 world_init) = Inl IndexError
   \<and> events (snd (run catalogue_sparse remdups plays_A5_B3_C1 world_init)) =
       [Artist_call ''idB'', Related_call ''idB'', Artist_call ''idD'', Related_call ''idD'',
        Sleep]"
proof -
  let ?d = "links_of [(''B'', ''idB'', ''D'', ''idD'')]"
  let ?w0 = "snd (seed_links catalogue_sparse ''idB'' world_init)"
  let ?w1 = "snd (for_each [0..<1] (expansion_body catalogue_sparse) ?d ?w0)"
  have h1: "topArtist plays_A5_B3_C1 = Inr ''idB''"
    by code_simp
  have "fst (seed_links catalogue_sparse ''idB'' world_init) = Inr ?d"
    by code_simp
  then have h2: "seed_links catalogue_sparse ''idB'' world_init = (Inr ?d, ?w0)"
    by (simp add: prod_eq_iff)
  have h3: "(1::nat) < 4" by simp
  have "fst (for_each [0..<1] (expansion_body catalogue_sparse) ?d ?w0) = Inr ?d"
    by code_simp
  then have h4: "for_each [0..<1] (expansion_body catalogue_sparse) ?d ?w0 = (Inr ?d, ?w1)"
    by (simp add: prod_eq_iff)
  have h5: "getitem ?d ''target_id'' = Inr [''idD'']"
    by code_simp
  have h6: "length [''idD''] \<le> (1::nat)" by simp
  have ev: "events ?w1 = [Artist_call ''idB'', Related_call ''idB'', Artist_call ''idD'',
      Related_call ''idD'', Sleep]"
    by code_simp
  from expansion_reads_out_of_range [OF h1 h2 h3 h4 h5 h6, of remdups]
  have "run catalogue_sparse remdups plays_A5_B3_C1 world_init = (Inl IndexError, ?w1)"
    by blast
  then have "fst (run catalogue_sparse remdups plays_A5_B3_C1 world_init) = Inl IndexError"
    "events (snd (run catalogue_sparse remdups plays_A5_B3_C1 world_init)) = events ?w1"
    by simp_all
  with h1 h2 h3 h4 h5 h6 ev show ?thesis by simp
qed

subsection \<open>The loop of the nodes\<close>

lemma points_dict_init_points_of: "points_dict_init = points_of []"
  by (simp add: points_dict_init_def points_of_def)

lemma node_body_eq:
  "node_body sp aid (points_of rows) w =
     (case sp_artist sp aid of
        None \<Rightarrow> (Inl SpotifyException, called [Sleep, Artist_call aid] w)
      | Some a \<Rightarrow>
          if images a = [] then (Inl IndexError, called [Sleep, Artist_call aid] w)
          else (Inr (points_of (rows @ [node_row aid a])), called [Sleep, Artist_call aid] w))"
  by (simp add: node_body_def and_then_sleep and_then_artist_call called_called points_of_def
      and_then_lift_Inr and_then_lift_Inl list_at_def lift_def node_row_def
      split: option.splits)

lemma node_body_ok:
  "node_ok sp aid \<Longrightarrow>
   node_body sp aid (points_of rows) w =
     (Inr (points_of (rows @ node_rows sp [aid])), called (node_events [aid]) w)"
  by (auto simp: node_body_eq node_ok_def node_rows_def node_events_def split: option.splits)

lemma node_body_not_ok:
  "\<not> node_ok sp aid \<Longrightarrow>
   \<exists>e. node_body sp aid (points_of rows) w = (Inl e, called (node_events [aid]) w)"
  by (auto simp: node_body_eq node_ok_def node_events_def split: option.splits)

lemma node_loop_ok:
  "list_all (node_ok sp) ids \<Longrightarrow>
   for_each ids (node_body sp) (points_of rows) w =
     (Inr (points_of (rows @ node_rows sp ids)), called (node_events ids) w)"
proof (induction ids arbitrary: rows w)
  case Nil
  show ?case by (simp add: return_def node_rows_def node_events_def called_def)
next
  case (Cons aid ids)
  then have ok: "node_ok sp aid" and rest: "list_all (node_ok sp) ids" by simp_all
  show ?case
    by (simp add: and_then_Inr [where m = "node_body sp aid (points_of rows)", OF node_body_ok [OF ok]]
        Cons.IH [OF rest] called_called node_rows_def node_events_def)
qed

lemma node_loop_not_ok:
  "\<not> list_all (node_ok sp) ids \<Longrightarrow>
   \<exists>e evs. for_each ids (node_body sp) (points_of rows) w = (Inl e, called evs w)"
proof (induction ids arbitrary: rows w)
  case Nil
  then show ?case by simp
next
  case (Cons aid ids)
  show ?case
  proof (cases "node_ok sp aid")
    case True
    with Cons.prems have "\<not> list_all (node_ok sp) ids" by simp
    from Cons.IH [OF this, of "rows @ node_rows sp [aid]" "called (node_events [aid]) w"]
    obtain e evs where
      "for_each ids (node_body sp) (points_of (rows @ node_rows sp [aid]))
         (called (node_events [aid]) w) = (Inl e, called evs (called (node_events [aid]) w))"
      by blast
    then show ?thesis
      by (simp add: and_then_Inr [where m = "node_body sp aid (points_of rows)", OF node_body_ok [OF True]]
          called_called) blast
  next
    case False
    from node_body_not_ok [OF False] obtain e where
      "node_body sp aid (points_of rows) w = (Inl e, called (node_events [aid]) w)"
      by blast
    then show ?thesis
      by (simp add: and_then_Inl [where m = "node_body sp aid (points_of rows)"]) blast
  qed
qed

lemma DataFrame_points_of: "DataFrame (points_of rows) = Inr (points_of rows)"
  by (simp add: DataFrame_def points_of_def)

lemma length_node_row: "length (node_row aid a) = 6"
  by (simp add: node_row_def)

lemma nth_6:
  assumes "length (r :: 'a list) = 6"
  shows "[r ! 0, r ! Suc 0, r ! 2, r ! 3, r ! 4, r ! 5] = r"
proof -
  from assms obtain a b c d e f where "r = [a, b, c, d, e, f]"
    by (auto simp: eval_nat_numeral length_Suc_conv)
  then show ?thesis by simp
qed

lemma frame_rows_points_of:
  assumes "\<forall>r \<in> set rows. length r = 6"
  shows "frame_rows (points_of rows) = rows"
proof (rule nth_equalityI)
  show "length (frame_rows (points_of rows)) = length rows"
    by (simp add: frame_rows_def points_of_def)
next
  fix i assume "i < length (frame_rows (points_of rows))"
  then have i: "i < length rows"
    by (simp add: frame_rows_def points_of_def)
  then have "length (rows ! i) = 6" using assms by simp
  then show "frame_rows (points_of rows) ! i = rows ! i"
    using i by (simp add: frame_rows_def points_of_def nth_6)
qed

lemma frame_rows_node_rows: "frame_rows (points_of (node_rows sp ids)) = node_rows sp ids"
  by (rule frame_rows_points_of) (auto simp: node_rows_def length_node_row)

lemma to_excel_points:
  "to_excel (points_of (node_rows sp ids)) path False w =
     (Inr (), w\<lparr>files := (files w)(path \<mapsto> points_sheet (node_rows sp ids))\<rparr>)"
  by (simp add: to_excel_def frame_rows_node_rows points_sheet_def) (simp add: points_of_def)

lemma node_stage_ok:
  assumes "list_all (node_ok sp) (all_artist_ids list_set es)"
  shows "node_stage sp list_set (links_of es) w =
     (Inr (points_of (node_rows sp (all_artist_ids list_set es))),
      (called (node_events (all_artist_ids list_set es)) w)
        \<lparr>files := (files w)(''points.xlsx'' \<mapsto>
            points_sheet (node_rows sp (all_artist_ids list_set es)))\<rparr>)"
proof -
  have l: "for_each (list_set (map source_of es @ map target_of es)) (node_body sp)
             points_dict_init w =
           (Inr (points_of (node_rows sp (all_artist_ids list_set es))),
            called (node_events (all_artist_ids list_set es)) w)"
    using node_loop_ok [OF assms, of "[]" w]
    by (simp add: points_dict_init_points_of all_artist_ids_def)
  show ?thesis
    unfolding node_stage_def
    by (simp add: getitem_source_id getitem_target_id and_then_lift_Inr
        and_then_Inr [where m = "for_each (list_set (map source_of es @ map target_of es))
          (node_body sp) points_dict_init", OF l]
        DataFrame_points_of and_then_Inr [where m = "to_excel _ _ _", OF to_excel_points]
        return_def called_def)
qed

lemma node_stage_not_ok:
  assumes "\<not> list_all (node_ok sp) (all_artist_ids list_set es)"
  shows "\<exists>e w'. node_stage sp list_set (links_of es) w = (Inl e, w') \<and> files w' = files w"
proof -
  from node_loop_not_ok [OF assms, of "[]" w] obtain e evs where
    l: "for_each (list_set (map source_of es @ map target_of es)) (node_body sp)
             points_dict_init w = (Inl e, called evs w)"
    by (auto simp: points_dict_init_points_of all_artist_ids_def)
  show ?thesis
    unfolding node_stage_def
    by (simp add: getitem_source_id getitem_target_id and_then_lift_Inr
        and_then_Inl [where m = "for_each (list_set (map source_of es @ map target_of es))
          (node_body sp) points_dict_init", OF l] called_def)
qed

subsection \<open>A run that ends\<close>

lemma lift_Inr_iff: "lift r w = (Inr x, w1) \<longleftrightarrow> r = Inr x \<and> w1 = w"
  by (auto simp: lift_def)

lemma return_Inr_iff: "return x w = (Inr y, w1) \<longleftrightarrow> y = x \<and> w1 = w"
  by (auto simp: return_def)

lemma run_Inr:
  assumes "run sp list_set df w = (Inr (links_dict, points), w')"
  obtains seed where "topArtist df = Inr seed"
    and "answers sp seed" and "\<forall>j<4. expandable sp seed j"
    and "links_dict = links_of (edges_after sp seed 4)"
    and "list_all (node_ok sp) (all_artist_ids list_set (edges_after sp seed 4))"
    and "points = points_of (node_rows sp (all_artist_ids list_set (edges_after sp seed 4)))"
    and "files w' = (files w)
           (''links.xlsx'' \<mapsto> links_sheet (edges_after sp seed 4),
            ''points.xlsx'' \<mapsto>
              points_sheet (node_rows sp (all_artist_ids list_set (edges_after sp seed 4))))"
    and "events w' = events w @ events_after sp seed 4
           @ node_events (all_artist_ids list_set (edges_after sp seed 4))"
proof -
  from assms obtain seed w1 where
    t: "topArtist df = Inr seed"
    and e: "edge_stage sp seed w = (Inr links_dict, w1)"
    and n: "node_stage sp list_set links_dict w1 = (Inr points, w')"
    unfolding run_def and_then_Inr_iff lift_Inr_iff return_Inr_iff by auto
  let ?es = "edges_after sp seed 4"
  let ?ids = "all_artist_ids list_set ?es"
  from edge_stage_Inr [OF e] have a: "answers sp seed" and x: "\<forall>j<4. expandable sp seed j"
    and ld: "links_dict = links_of ?es"
    and w1: "w1 = (called (events_after sp seed 4) w)
               \<lparr>files := (files w)(''links.xlsx'' \<mapsto> links_sheet ?es)\<rparr>"
    by blast+
  have ok: "list_all (node_ok sp) ?ids"
  proof (rule ccontr)
    assume "\<not> list_all (node_ok sp) ?ids"
    from node_stage_not_ok [OF this, of w1] n show False
      by (auto simp: ld)
  qed
  from node_stage_ok [OF ok, of w1] n have
    p: "points = points_of (node_rows sp ?ids)"
    and w': "w' = (called (node_events ?ids) w1)
        \<lparr>files := (files w1)(''points.xlsx'' \<mapsto> points_sheet (node_rows sp ?ids))\<rparr>"
    by (simp_all add: ld)
  have f: "files w' = (files w)(''links.xlsx'' \<mapsto> links_sheet ?es,
            ''points.xlsx'' \<mapsto> points_sheet (node_rows sp ?ids))"
    by (simp add: w' w1)
  have ev: "events w' = events w @ events_after sp seed 4 @ node_events ?ids"
    by (simp add: w' w1 called_def)
  from t a x ld ok p f ev show thesis by (rule that)
qed

lemma getitem_id_points_of: "getitem (points_of rows) ''id'' = Inr (map (\<lambda>r. r ! 0) rows)"
  by (simp add: getitem_def points_of_def)

lemma id_column_node_rows: "map (\<lambda>r. r ! 0) (node_rows sp ids) = map Str ids"
  by (simp add: node_rows_def node_row_def)

lemma set_iteration_remdups: "set_iteration remdups"
  by (simp add: set_iteration_def)

lemma expansion_loop_ok:
  "(\<forall>j. n \<le> j \<and> j < n + k \<longrightarrow> expandable sp seed j) \<Longrightarrow>
   for_each [n..<n + k] (expansion_body sp) (links_of (edges_after sp seed n))
     (called (events_after sp seed n) w) =
   (Inr (links_of (edges_after sp seed (n + k))), called (events_after sp seed (n + k)) w)"
proof (induction k arbitrary: n)
  case 0
  show ?case by (simp add: return_def)
next
  case (Suc k)
  have u: "[n..<n + Suc k] = n # [Suc n..<Suc n + k]"
    by (simp add: upt_conv_Cons)
  from Suc.prems have e: "expandable sp seed n"
    and r: "\<forall>j. Suc n \<le> j \<and> j < Suc n + k \<longrightarrow> expandable sp seed j"
    by simp_all
  show ?case
    unfolding u using Suc.IH [OF r]
    by (simp add: and_then_Inr [where m = "expansion_body sp n (links_of (edges_after sp seed n))",
          OF expansion_body_expandable [OF e]]
        del: upt_Suc edges_after.simps events_after.simps)
qed

lemma edge_stage_ok:
  assumes "answers sp seed" "\<forall>j<4. expandable sp seed j"
  shows "edge_stage sp seed w =
     (Inr (links_of (edges_after sp seed 4)),
      (called (events_after sp seed 4) w)
        \<lparr>files := (files w)(''links.xlsx'' \<mapsto> links_sheet (edges_after sp seed 4))\<rparr>)"
proof -
  have l: "for_each [0..<0 + 4] (expansion_body sp) (links_of (edges_after sp seed 0))
     (called (events_after sp seed 0) w) =
   (Inr (links_of (edges_after sp seed (0 + 4))), called (events_after sp seed (0 + 4)) w)"
    by (rule expansion_loop_ok) (use assms(2) in simp)
  show ?thesis
    unfolding edge_stage_def
    using l
    by (simp add: and_then_Inr [where m = "seed_links sp seed", OF seed_links_answers [OF assms(1)]]
        and_then_Inr [where m = "for_each [0..<4] (expansion_body sp) _"]
        DataFrame_links_of and_then_lift_Inr and_then_Inr [where m = "to_excel _ _ _", OF to_excel_links]
        return_def called_def
        del: edges_after.simps events_after.simps)
qed

lemma run_ok:
  assumes "topArtist df = Inr seed" "answers sp seed" "\<forall>j<4. expandable sp seed j"
    and "list_all (node_ok sp) (all_artist_ids list_set (edges_after sp seed 4))"
  shows "fst (run sp list_set df w) =
     Inr (links_of (edges_after sp seed 4),
          points_of (node_rows sp (all_artist_ids list_set (edges_after sp seed 4))))"
  unfolding run_def
  by (simp add: assms(1) and_then_lift_Inr
      and_then_Inr [where m = "edge_stage sp seed", OF edge_stage_ok [OF assms(2,3)]]
      and_then_Inr [where m = "node_stage sp list_set _", OF node_stage_ok [OF assms(4)]]
      return_def del: edges_after.simps events_after.simps)

lemma example_expandable: "\<forall>j<4. expandable catalogue ''idB'' j"
proof (intro allI impI)
  fix j :: nat assume "j < 4"
  then have "j = 0 \<or> j = 1 \<or> j = 2 \<or> j = 3" by arith
  moreover have "expandable catalogue ''idB'' 0" by code_simp
  moreover have "expandable catalogue ''idB'' 1" by code_simp
  moreover have "expandable catalogue ''idB'' 2" by code_simp
  moreover have "expandable catalogue ''idB'' 3" by code_simp
  ultimately show "expandable catalogue ''idB'' j" by blast
qed

lemma example_edges_after: "edges_after catalogue ''idB'' 4 = example_edges"
  by code_simp

lemma example_ids: "all_artist_ids remdups example_edges = [''idE'', ''idB'', ''idD'']"
  by code_simp

lemma example_node_rows:
  "node_rows catalogue [''idE'', ''idB'', ''idD''] =
     [[Str ''idE'', Str ''E'', Num 100, Num 50, Str ''urlE'', Str ''imgE''],
      [Str ''idB'', Str ''B'', Num 300, Num 70, Str ''urlB'', Str ''imgB''],
      [Str ''idD'', Str ''D'', Num 200, Num 60, Str ''urlD'', Str ''imgD'']]"
  by code_simp

lemma example_run:
  "fst (run catalogue remdups plays_A5_B3_C1 world_init) =
     Inr (links_of example_edges, points_of example_points)"
proof -
  have t: "topArtist plays_A5_B3_C1 = Inr ''idB''" by code_simp
  have a: "answers catalogue ''idB''" by code_simp
  have n: "list_all (node_ok catalogue) (all_artist_ids remdups (edges_after catalogue ''idB'' 4))"
    unfolding example_edges_after example_ids by code_simp
  show ?thesis
    using run_ok [OF t a example_expandable n, of world_init]
    by (simp only: example_edges_after example_ids example_node_rows example_points_def)
qed

subsection \<open>The node table\<close>

text \<open>
  Claim C4. In a run that ends, the ids of the node table are exactly the ids that occur
  as source id or as target id in the edge table, each of them once; so every id of the
  node table is the source or the target of some row of the edge table.
\<close>

theorem node_ids_are_edge_ids:
  assumes "set_iteration list_set"
    and "run sp list_set df w = (Inr (links_dict, points), w')"
  shows "\<exists>sids tids ids.
           getitem links_dict ''source_id'' = Inr sids
         \<and> getitem links_dict ''target_id'' = Inr tids
         \<and> getitem points ''id'' = Inr ids
         \<and> set ids = Str ` (set sids \<union> set tids)
         \<and> distinct ids
         \<and> length sids = length tids
         \<and> (\<forall>c \<in> set ids. \<exists>k < length sids. c = Str (sids ! k) \<or> c = Str (tids ! k))"
proof -
  from assms(2) obtain seed where
    ld: "links_dict = links_of (edges_after sp seed 4)"
    and p: "points = points_of (node_rows sp (all_artist_ids list_set (edges_after sp seed 4)))"
    by (rule run_Inr)
  let ?es = "edges_after sp seed 4"
  let ?sids = "map source_of ?es"
  let ?tids = "map target_of ?es"
  let ?ids = "all_artist_ids list_set ?es"
  from assms(1) have d: "distinct ?ids" and s: "set ?ids = set ?sids \<union> set ?tids"
    by (simp_all add: set_iteration_def all_artist_ids_def)
  have inj: "inj_on Str (set ?ids)"
    by (simp add: inj_on_def)
  have everywhere: "\<exists>k < length ?sids. c = Str (?sids ! k) \<or> c = Str (?tids ! k)"
    if c: "c \<in> set (map Str ?ids)" for c
  proof -
    from c obtain x where x: "x \<in> set ?sids \<union> set ?tids" and cx: "c = Str x"
      using s by auto
    from x show ?thesis
    proof
      assume "x \<in> set ?sids"
      then obtain k where "k < length ?sids" "?sids ! k = x"
        by (auto simp: in_set_conv_nth)
      then show ?thesis using cx by auto
    next
      assume "x \<in> set ?tids"
      then obtain k where "k < length ?tids" "?tids ! k = x"
        by (auto simp: in_set_conv_nth)
      then show ?thesis using cx by auto
    qed
  qed
  show ?thesis
  proof (intro exI conjI)
    show "getitem links_dict ''source_id'' = Inr ?sids"
      unfolding ld by (rule getitem_source_id)
    show "getitem links_dict ''target_id'' = Inr ?tids"
      unfolding ld by (rule getitem_target_id)
    show "getitem points ''id'' = Inr (map Str ?ids)"
      unfolding p by (simp add: getitem_id_points_of id_column_node_rows)
    show "set (map Str ?ids) = Str ` (set ?sids \<union> set ?tids)"
      using s by simp
    show "distinct (map Str ?ids)"
      using d inj by (simp add: distinct_map)
    show "length ?sids = length ?tids" by simp
    show "\<forall>c \<in> set (map Str ?ids). \<exists>k < length ?sids. c = Str (?sids ! k) \<or> c = Str (?tids ! k)"
      using everywhere by blast
  qed
qed

text \<open>In the example the node table has the three ids E, B and D.\<close>

theorem node_ids_are_edge_ids_witness:
  "set_iteration remdups
   \<and> run catalogue remdups plays_A5_B3_C1 world_init =
       (Inr (links_of example_edges, points_of example_points),
        snd (run catalogue remdups plays_A5_B3_C1 world_init))
   \<and> (\<exists>sids tids ids.
           getitem (links_of example_edges) ''source_id'' = Inr sids
         \<and> getitem (links_of example_edges) ''target_id'' = Inr tids
         \<and> getitem (points_of example_points) ''id'' = Inr ids
         \<and> set ids = Str ` (set sids \<union> set tids)
         \<and> distinct ids
         \<and> length sids = length tids
         \<and> (\<forall>c \<in> set ids. \<exists>k < length sids. c = Str (sids ! k) \<or> c = Str (tids ! k)))
   \<and> getitem (points_of example_points) ''id'' = Inr [Str ''idE'', Str ''idB'', Str ''idD'']"
proof -
  have h1: "set_iteration remdups" by (rule set_iteration_remdups)
  have h2: "run catalogue remdups plays_A5_B3_C1 world_init =
       (Inr (links_of example_edges, points_of example_points),
        snd (run catalogue remdups plays_A5_B3_C1 world_init))"
    using example_run by (simp add: prod_eq_iff)
  have c: "getitem (points_of example_points) ''id'' = Inr [Str ''idE'', Str ''idB'', Str ''idD'']"
    by code_simp
  show ?thesis
    using h1 h2 c node_ids_are_edge_ids [OF h1 h2] by blast
qed

subsection \<open>The two files\<close>

lemma edge_rows_by_index:
  "map edge_row es =
   map (\<lambda>k. [Str (map (\<lambda>(sn, si, tn, ti). sn) es ! k), Str (map source_of es ! k),
             Str (map (\<lambda>(sn, si, tn, ti). tn) es ! k), Str (map target_of es ! k)])
     [0..<length (map target_of es)]"
  by (rule nth_equalityI)
    (auto simp: edge_row_def source_of_def target_of_def split: prod.splits)

text \<open>
  Claim C7. After a run that ends, the file of the edges holds a header with exactly the
  columns source\_name, source\_id, target\_name, target\_id and, below it, one row per
  entry of the lists of \<open>links_dict\<close>, in the order of the lists and as many as the
  lists are long, so that nothing is dropped or reordered; the file of the nodes holds
  a header with exactly the columns id, name, followers, popularity, url, image and the
  rows of the node table. Every row has as many cells as its header: there is no column
  of row labels.
\<close>

theorem exports_hold_the_tables:
  assumes "run sp list_set df w = (Inr (links_dict, points), w')"
  shows "\<exists>ls ps sn si tn ti.
           files w' ''links.xlsx'' = Some ls \<and> files w' ''points.xlsx'' = Some ps
         \<and> header ls = [''source_name'', ''source_id'', ''target_name'', ''target_id'']
         \<and> header ps = [''id'', ''name'', ''followers'', ''popularity'', ''url'', ''image'']
         \<and> links_dict = [(''source_name'', sn), (''source_id'', si), (''target_name'', tn),
                          (''target_id'', ti)]
         \<and> length sn = length ti \<and> length si = length ti \<and> length tn = length ti
         \<and> body ls = map (\<lambda>k. [Str (sn ! k), Str (si ! k), Str (tn ! k), Str (ti ! k)])
                         [0..<length ti]
         \<and> map fst points = header ps
         \<and> body ps = frame_rows points
         \<and> (\<forall>r \<in> set (body ls). length r = 4)
         \<and> (\<forall>r \<in> set (body ps). length r = 6)"
proof -
  from assms obtain seed where
    ld: "links_dict = links_of (edges_after sp seed 4)"
    and p: "points = points_of (node_rows sp (all_artist_ids list_set (edges_after sp seed 4)))"
    and f: "files w' = (files w)
           (''links.xlsx'' \<mapsto> links_sheet (edges_after sp seed 4),
            ''points.xlsx'' \<mapsto>
              points_sheet (node_rows sp (all_artist_ids list_set (edges_after sp seed 4))))"
    by (rule run_Inr)
  let ?es = "edges_after sp seed 4"
  let ?rows = "node_rows sp (all_artist_ids list_set ?es)"
  show ?thesis
  proof (intro exI conjI)
    show "files w' ''links.xlsx'' = Some (links_sheet ?es)"
      by (simp add: f)
    show "files w' ''points.xlsx'' = Some (points_sheet ?rows)"
      by (simp add: f)
    show "header (links_sheet ?es) = [''source_name'', ''source_id'', ''target_name'', ''target_id'']"
      by (simp add: links_sheet_def)
    show "header (points_sheet ?rows) =
        [''id'', ''name'', ''followers'', ''popularity'', ''url'', ''image'']"
      by (simp add: points_sheet_def)
    show "links_dict = [(''source_name'', map (\<lambda>(sn, si, tn, ti). sn) ?es),
        (''source_id'', map source_of ?es), (''target_name'', map (\<lambda>(sn, si, tn, ti). tn) ?es),
        (''target_id'', map target_of ?es)]"
      unfolding ld by (simp only: links_of_def)
    show "length (map (\<lambda>(sn, si, tn, ti). sn) ?es) = length (map target_of ?es)"
      by simp
    show "length (map source_of ?es) = length (map target_of ?es)"
      by simp
    show "length (map (\<lambda>(sn, si, tn, ti). tn) ?es) = length (map target_of ?es)"
      by simp
    show "body (links_sheet ?es) =
        map (\<lambda>k. [Str (map (\<lambda>(sn, si, tn, ti). sn) ?es ! k), Str (map source_of ?es ! k),
             Str (map (\<lambda>(sn, si, tn, ti). tn) ?es ! k), Str (map target_of ?es ! k)])
          [0..<length (map target_of ?es)]"
      unfolding links_sheet_def using edge_rows_by_index [of ?es] by simp
    show "map fst points = header (points_sheet ?rows)"
      unfolding p by (simp add: points_of_def points_sheet_def)
    show "body (points_sheet ?rows) = frame_rows points"
      unfolding p by (simp add: points_sheet_def frame_rows_node_rows)
    show "\<forall>r \<in> set (body (links_sheet ?es)). length r = 4"
      by (auto simp: links_sheet_def edge_row_def split: prod.splits)
    show "\<forall>r \<in> set (body (points_sheet ?rows)). length r = 6"
      by (auto simp: points_sheet_def node_rows_def length_node_row)
  qed
qed

theorem exports_hold_the_tables_witness:
  "run catalogue remdups plays_A5_B3_C1 world_init =
     (Inr (links_of example_edges, points_of example_points),
      snd (run catalogue remdups plays_A5_B3_C1 world_init))
   \<and> (\<exists>ls ps sn si tn ti.
           files (snd (run catalogue remdups plays_A5_B3_C1 world_init)) ''links.xlsx'' = Some ls
         \<and> files (snd (run catalogue remdups plays_A5_B3_C1 world_init)) ''points.xlsx'' = Some ps
         \<and> header ls = [''source_name'', ''source_id'', ''target_name'', ''target_id'']
         \<and> header ps = [''id'', ''name'', ''followers'', ''popularity'', ''url'', ''image'']
         \<and> links_of example_edges =
             [(''source_name'', sn), (''source_id'', si), (''target_name'', tn), (''target_id'', ti)]
         \<and> length sn = length ti \<and> length si = length ti \<and> length tn = length ti
         \<and> body ls = map (\<lambda>k. [Str (sn ! k), Str (si ! k), Str (tn ! k), Str (ti ! k)])
                         [0..<length ti]
         \<and> map fst (points_of example_points) = header ps
         \<and> body ps = frame_rows (points_of example_points)
         \<and> (\<forall>r \<in> set (body ls). length r = 4)
         \<and> (\<forall>r \<in> set (body ps). length r = 6))"
proof -
  have h: "run catalogue remdups plays_A5_B3_C1 world_init =
     (Inr (links_of example_edges, points_of example_points),
      snd (run catalogue remdups plays_A5_B3_C1 world_init))"
    using example_run by (simp add: prod_eq_iff)
  show ?thesis
    by (rule conjI [OF h exports_hold_the_tables [OF h]])
qed

subsection \<open>An artist without images\<close>

lemma node_loop_Inr:
  assumes "for_each ids (node_body sp) (points_of rows) w = (Inr d, w')"
  shows "list_all (node_ok sp) ids \<and> d = points_of (rows @ node_rows sp ids)
       \<and> w' = called (node_events ids) w"
proof -
  have ok: "list_all (node_ok sp) ids"
  proof (rule ccontr)
    assume "\<not> list_all (node_ok sp) ids"
    from node_loop_not_ok [OF this, of rows w] assms show False by auto
  qed
  from node_loop_ok [OF ok, of rows w] assms show ?thesis
    using ok by simp
qed

text \<open>
  Claim C5. When the loop of the nodes reaches an id for which the catalogue returns an
  artist with an empty list of images, the read of the first image raises
  \<open>IndexError\<close>: the loop, the node stage and the run end with that exception, and the
  file of the nodes is not written. No row with a placeholder is appended.
\<close>

theorem empty_images_fail_the_run:
  assumes "topArtist df = Inr seed"
    and "edge_stage sp seed w = (Inr links_dict, w0)"
    and "getitem links_dict ''source_id'' = Inr sids"
    and "getitem links_dict ''target_id'' = Inr tids"
    and "list_set (sids @ tids) = pre @ aid # post"
    and "for_each pre (node_body sp) points_dict_init w0 = (Inr d1, w1)"
    and "sp_artist sp aid = Some a"
    and "images a = []"
  shows "node_body sp aid d1 w1 = (Inl IndexError, called [Sleep, Artist_call aid] w1)
       \<and> run sp list_set df w = (Inl IndexError, called [Sleep, Artist_call aid] w1)
       \<and> files (called [Sleep, Artist_call aid] w1) ''points.xlsx'' = files w ''points.xlsx''"
proof -
  let ?w2 = "called [Sleep, Artist_call aid] w1"
  from node_loop_Inr [OF assms(6) [unfolded points_dict_init_points_of]]
  have d1: "d1 = points_of (node_rows sp pre)" and w1: "w1 = called (node_events pre) w0"
    by simp_all
  have b: "node_body sp aid d1 w1 = (Inl IndexError, ?w2)"
    unfolding d1 by (simp add: node_body_eq assms(7,8))
  have l: "for_each (list_set (sids @ tids)) (node_body sp) points_dict_init w0
           = (Inl IndexError, ?w2)"
    unfolding assms(5) for_each_append
    by (simp add: and_then_Inr [where m = "for_each pre (node_body sp) points_dict_init", OF assms(6)]
        and_then_Inl [where m = "node_body sp aid d1", OF b])
  have n: "node_stage sp list_set links_dict w0 = (Inl IndexError, ?w2)"
    unfolding node_stage_def
    by (simp add: assms(3,4) and_then_lift_Inr
        and_then_Inl [where m = "for_each (list_set (sids @ tids)) (node_body sp) points_dict_init",
          OF l])
  have r: "run sp list_set df w = (Inl IndexError, ?w2)"
    unfolding run_def
    by (simp add: assms(1) and_then_lift_Inr
        and_then_Inr [where m = "edge_stage sp seed", OF assms(2)]
        and_then_Inl [where m = "node_stage sp list_set links_dict", OF n])
  from edge_stage_Inr [OF assms(2)] have "files w0 ''points.xlsx'' = files w ''points.xlsx''"
    by simp
  then have "files ?w2 ''points.xlsx'' = files w ''points.xlsx''"
    by (simp add: w1 called_def)
  with b r show ?thesis by simp
qed
text \<open>
  In the bare catalogue the artist returned for B has no images; the ids are listed as E,
  B, D, so the loop handles E and fails at B.
\<close>

theorem empty_images_fail_the_run_witness:
  "topArtist plays_A5_B3_C1 = Inr ''idB''
   \<and> edge_stage catalogue_bare ''idB'' world_init = (Inr (links_of example_edges), world_after_edges)
   \<and> getitem (links_of example_edges) ''source_id'' = Inr (map source_of example_edges)
   \<and> getitem (links_of example_edges) ''target_id'' = Inr (map target_of example_edges)
   \<and> remdups (map source_of example_edges @ map target_of example_edges)
       = [''idE''] @ ''idB'' # [''idD'']
   \<and> for_each [''idE''] (node_body catalogue_bare) points_dict_init world_after_edges =
       (Inr (points_of (node_rows catalogue_bare [''idE''])),
        called (node_events [''idE'']) world_after_edges)
   \<and> sp_artist catalogue_bare ''idB'' = Some (artist_B\<lparr>images := []\<rparr>)
   \<and> images (artist_B\<lparr>images := []\<rparr>) = []
   \<and> run catalogue_bare remdups plays_A5_B3_C1 world_init =
       (Inl IndexError,
        called [Sleep, Artist_call ''idB''] (called (node_events [''idE'']) world_after_edges))
   \<and> files (called [Sleep, Artist_call ''idB''] (called (node_events [''idE'']) world_after_edges))
        ''points.xlsx'' = None"
proof -
  have h1: "topArtist plays_A5_B3_C1 = Inr ''idB''"
    by code_simp
  have "fst (edge_stage catalogue_bare ''idB'' world_init) = Inr (links_of example_edges)"
    by code_simp
  then have h2: "edge_stage catalogue_bare ''idB'' world_init =
      (Inr (links_of example_edges), world_after_edges)"
    by (simp add: prod_eq_iff world_after_edges_def)
  note h3 = getitem_source_id [of example_edges]
  note h4 = getitem_target_id [of example_edges]
  have h5: "remdups (map source_of example_edges @ map target_of example_edges)
       = [''idE''] @ ''idB'' # [''idD'']"
    by code_simp
  have ok: "list_all (node_ok catalogue_bare) [''idE'']"
    by code_simp
  have h6: "for_each [''idE''] (node_body catalogue_bare) points_dict_init world_after_edges =
       (Inr (points_of (node_rows catalogue_bare [''idE''])),
        called (node_events [''idE'']) world_after_edges)"
    using node_loop_ok [OF ok, of "[]" world_after_edges]
    by (simp add: points_dict_init_points_of)
  have h7: "sp_artist catalogue_bare ''idB'' = Some (artist_B\<lparr>images := []\<rparr>)"
    by (simp add: catalogue_bare_def)
  have h8: "images (artist_B\<lparr>images := []\<rparr>) = []"
    by simp
  note c = empty_images_fail_the_run [where list_set = remdups
      and sids = "map source_of example_edges" and tids = "map target_of example_edges"
      and pre = "[''idE'']" and aid = "''idB''" and post = "[''idD'']" and w = world_init,
      OF h1 h2 h3 h4 h5 h6 h7 h8]
  have "files world_init ''points.xlsx'' = None"
    by (simp add: world_init_def)
  with c have "run catalogue_bare remdups plays_A5_B3_C1 world_init =
       (Inl IndexError,
        called [Sleep, Artist_call ''idB''] (called (node_events [''idE'']) world_after_edges))"
    and "files (called [Sleep, Artist_call ''idB''] (called (node_events [''idE'']) world_after_edges))
        ''points.xlsx'' = None"
    by simp_all
  with h1 h2 h3 h4 h5 h6 h7 h8 show ?thesis by blast
qed

subsection \<open>Two runs on the same answers\<close>

lemma run_cases:
  "run sp list_set df w =
     (case topArtist df of
        Inl e \<Rightarrow> (Inl e, w)
      | Inr seed \<Rightarrow>
          (case edge_stage sp seed w of
             (Inl e, w1) \<Rightarrow> (Inl e, w1)
           | (Inr d, w1) \<Rightarrow>
               (case node_stage sp list_set d w1 of
                  (Inl e, w2) \<Rightarrow> (Inl e, w2)
                | (Inr p, w2) \<Rightarrow> (Inr (d, p), w2))))"
  by (simp add: run_def and_then_def lift_def return_def split: sum.splits prod.splits)

lemma same_ids:
  assumes "set_iteration ls1" "set_iteration ls2"
  shows "mset (all_artist_ids ls1 es) = mset (all_artist_ids ls2 es)"
proof -
  from assms have "distinct (all_artist_ids ls1 es)" "distinct (all_artist_ids ls2 es)"
    "set (all_artist_ids ls1 es) = set (all_artist_ids ls2 es)"
    by (simp_all add: set_iteration_def all_artist_ids_def)
  then show ?thesis by (simp add: set_eq_iff_mset_eq_distinct)
qed

lemma same_node_ok:
  assumes "mset ids1 = mset ids2"
  shows "list_all (node_ok sp) ids1 \<longleftrightarrow> list_all (node_ok sp) ids2"
  using mset_eq_setD [OF assms] by (simp add: list_all_iff)

lemma same_node_rows:
  assumes "mset ids1 = mset ids2"
  shows "mset (node_rows sp ids1) = mset (node_rows sp ids2)"
  unfolding node_rows_def using assms by (metis mset_map)

lemma set_iteration_rev_remdups: "set_iteration (\<lambda>xs. rev (remdups xs))"
  by (simp add: set_iteration_def)

lemma example_run_rev:
  "fst (run catalogue (\<lambda>xs. rev (remdups xs)) plays_A5_B3_C1 world_init) =
     Inr (links_of example_edges, points_of (rev example_points))"
proof -
  have t: "topArtist plays_A5_B3_C1 = Inr ''idB''" by code_simp
  have a: "answers catalogue ''idB''" by code_simp
  have i: "all_artist_ids (\<lambda>xs. rev (remdups xs)) example_edges = [''idD'', ''idB'', ''idE'']"
    by code_simp
  have n: "list_all (node_ok catalogue)
      (all_artist_ids (\<lambda>xs. rev (remdups xs)) (edges_after catalogue ''idB'' 4))"
    unfolding example_edges_after i by code_simp
  have r: "node_rows catalogue [''idD'', ''idB'', ''idE''] = rev example_points"
    by code_simp
  show ?thesis
    using run_ok [OF t a example_expandable n, of world_init]
    by (simp only: example_edges_after i r)
qed

text \<open>
  Claim C8. Two runs on the same listening history and the same answers of the
  catalogue can only differ in the order in which \<open>list(set(...))\<close> lists the ids. For
  any two such orders the file of the edges is the same; one run ends with an exception
  exactly when the other does; and when they end, \<open>links_dict\<close> is the same and the
  node tables have the same columns and the same rows up to their order.
\<close>

theorem runs_agree_up_to_node_order:
  assumes "set_iteration ls1" "set_iteration ls2"
  shows "files (snd (run sp ls1 df w)) ''links.xlsx'' = files (snd (run sp ls2 df w)) ''links.xlsx''
       \<and> ((\<exists>e. fst (run sp ls1 df w) = Inl e) \<longleftrightarrow> (\<exists>e. fst (run sp ls2 df w) = Inl e))
       \<and> (\<forall>links_dict p1. fst (run sp ls1 df w) = Inr (links_dict, p1) \<longrightarrow>
            (\<exists>p2 s1 s2. fst (run sp ls2 df w) = Inr (links_dict, p2)
               \<and> map fst p2 = map fst p1
               \<and> mset (frame_rows p2) = mset (frame_rows p1)
               \<and> files (snd (run sp ls1 df w)) ''points.xlsx'' = Some s1
               \<and> files (snd (run sp ls2 df w)) ''points.xlsx'' = Some s2
               \<and> header s2 = header s1 \<and> mset (body s2) = mset (body s1)))"
proof (cases "topArtist df")
  case (Inl e)
  then show ?thesis by (simp add: run_cases)
next
  case (Inr seed)
  show ?thesis
  proof (cases "edge_stage sp seed w")
    case (Pair r w1)
    show ?thesis
    proof (cases r)
      case (Inl e)
      then show ?thesis by (simp add: run_cases Inr Pair)
    next
      case r: (Inr d)
      let ?es = "edges_after sp seed 4"
      let ?ids1 = "all_artist_ids ls1 ?es"
      let ?ids2 = "all_artist_ids ls2 ?es"
      from edge_stage_Inr [OF Pair [unfolded r]] have d: "d = links_of ?es"
        and w1: "files w1 ''links.xlsx'' = Some (links_sheet ?es)"
        by simp_all
      note ids = same_ids [OF assms, of ?es]
      show ?thesis
      proof (cases "list_all (node_ok sp) ?ids1")
        case True
        then have ok2: "list_all (node_ok sp) ?ids2"
          using same_node_ok [OF ids] by simp
        note n1 = node_stage_ok [OF True, of w1]
        note n2 = node_stage_ok [OF ok2, of w1]
        have r1: "run sp ls1 df w =
            (Inr (links_of ?es, points_of (node_rows sp ?ids1)),
             (called (node_events ?ids1) w1)
               \<lparr>files := (files w1)(''points.xlsx'' \<mapsto> points_sheet (node_rows sp ?ids1))\<rparr>)"
          by (simp add: run_cases Inr Pair r d n1)
        have r2: "run sp ls2 df w =
            (Inr (links_of ?es, points_of (node_rows sp ?ids2)),
             (called (node_events ?ids2) w1)
               \<lparr>files := (files w1)(''points.xlsx'' \<mapsto> points_sheet (node_rows sp ?ids2))\<rparr>)"
          by (simp add: run_cases Inr Pair r d n2)
        have keys: "map fst (points_of (node_rows sp ?ids2)) = map fst (points_of (node_rows sp ?ids1))"
          by (simp add: points_of_def)
        show ?thesis
          unfolding r1 r2
          by (simp add: keys frame_rows_node_rows same_node_rows [OF ids] points_sheet_def)
      next
        case False
        then have bad2: "\<not> list_all (node_ok sp) ?ids2"
          using same_node_ok [OF ids] by simp
        from node_stage_not_ok [OF False, of w1] obtain e1 w1' where
          n1: "node_stage sp ls1 (links_of ?es) w1 = (Inl e1, w1')" "files w1' = files w1"
          by blast
        from node_stage_not_ok [OF bad2, of w1] obtain e2 w2' where
          n2: "node_stage sp ls2 (links_of ?es) w1 = (Inl e2, w2')" "files w2' = files w1"
          by blast
        have "run sp ls1 df w = (Inl e1, w1')" "run sp ls2 df w = (Inl e2, w2')"
          by (simp_all add: run_cases Inr Pair r d n1 n2)
        then show ?thesis by (simp add: n1(2) n2(2))
      qed
    qed
  qed
qed

text \<open>
  In the example, listing the ids in the reverse order gives the node rows in the
  reverse order: the same rows, another table.
\<close>

theorem runs_agree_up_to_node_order_witness:
  "set_iteration remdups \<and> set_iteration (\<lambda>xs. rev (remdups xs))
   \<and> files (snd (run catalogue remdups plays_A5_B3_C1 world_init)) ''links.xlsx''
       = files (snd (run catalogue (\<lambda>xs. rev (remdups xs)) plays_A5_B3_C1 world_init)) ''links.xlsx''
   \<and> fst (run catalogue remdups plays_A5_B3_C1 world_init)
       = Inr (links_of example_edges, points_of example_points)
   \<and> fst (run catalogue (\<lambda>xs. rev (remdups xs)) plays_A5_B3_C1 world_init)
       = Inr (links_of example_edges, points_of (rev example_points))
   \<and> mset (frame_rows (points_of (rev example_points)))
       = mset (frame_rows (points_of example_points))
   \<and> frame_rows (points_of (rev example_points)) \<noteq> frame_rows (points_of example_points)"
proof -
  have h1: "set_iteration remdups" by (rule set_iteration_remdups)
  have h2: "set_iteration (\<lambda>xs. rev (remdups xs))" by (rule set_iteration_rev_remdups)
  note t = runs_agree_up_to_node_order [OF h1 h2, of catalogue plays_A5_B3_C1 world_init]
  from t have f: "files (snd (run catalogue remdups plays_A5_B3_C1 world_init)) ''links.xlsx''
       = files (snd (run catalogue (\<lambda>xs. rev (remdups xs)) plays_A5_B3_C1 world_init)) ''links.xlsx''"
    by (rule conjunct1)
  from t have "\<exists>p2 s1 s2.
      fst (run catalogue (\<lambda>xs. rev (remdups xs)) plays_A5_B3_C1 world_init)
        = Inr (links_of example_edges, p2)
      \<and> map fst p2 = map fst (points_of example_points)
      \<and> mset (frame_rows p2) = mset (frame_rows (points_of example_points))
      \<and> files (snd (run catalogue remdups plays_A5_B3_C1 world_init)) ''points.xlsx'' = Some s1
      \<and> files (snd (run catalogue (\<lambda>xs. rev (remdups xs)) plays_A5_B3_C1 world_init)) ''points.xlsx''
          = Some s2
      \<and> header s2 = header s1 \<and> mset (body s2) = mset (body s1)"
    using example_run by blast
  then have m: "mset (frame_rows (points_of (rev example_points)))
       = mset (frame_rows (points_of example_points))"
    using example_run_rev by auto
  have ne: "frame_rows (points_of (rev example_points)) \<noteq> frame_rows (points_of example_points)"
    by code_simp
  from h1 h2 f example_run example_run_rev m ne show ?thesis by blast
qed

subsection \<open>The lists of a dictionary grow together\<close>

lemma keys_4:
  assumes "map fst d = [k1, k2, k3, k4]"
  obtains a b c e where "d = [(k1, a), (k2, b), (k3, c), (k4, e)]"
proof -
  from assms obtain p1 p2 p3 p4 where d: "d = [p1, p2, p3, p4]"
    by (auto simp: map_eq_Cons_conv)
  with assms have "p1 = (k1, snd p1)" "p2 = (k2, snd p2)" "p3 = (k3, snd p3)" "p4 = (k4, snd p4)"
    by (auto simp: prod_eq_iff)
  with d that show thesis by metis
qed

lemma keys_6:
  assumes "map fst d = [k1, k2, k3, k4, k5, k6]"
  obtains a b c e f g where "d = [(k1, a), (k2, b), (k3, c), (k4, e), (k5, f), (k6, g)]"
proof -
  from assms obtain p1 p2 p3 p4 p5 p6 where d: "d = [p1, p2, p3, p4, p5, p6]"
    by (auto simp: map_eq_Cons_conv)
  with assms have "p1 = (k1, snd p1)" "p2 = (k2, snd p2)" "p3 = (k3, snd p3)" "p4 = (k4, snd p4)"
    "p5 = (k5, snd p5)" "p6 = (k6, snd p6)"
    by (auto simp: prod_eq_iff)
  with d that show thesis by metis
qed

lemma append_link_round:
  assumes "map fst d = map fst links_dict_init" "same_length d n"
  shows "\<exists>d'. append_link a artist' d w = (Inr d', w)
            \<and> map fst d' = map fst links_dict_init \<and> same_length d' (Suc n)"
proof -
  from assms(1) obtain sn si tn ti where
    d: "d = [(''source_name'', sn), (''source_id'', si), (''target_name'', tn), (''target_id'', ti)]"
    by (auto simp: links_dict_init_def elim: keys_4)
  show ?thesis
    using assms(2) unfolding d
    by (simp add: append_link_def and_then_lift_Inr lift_def same_length_def links_dict_init_def)
qed

lemma node_body_round:
  assumes "map fst p = map fst points_dict_init" "same_length p n"
    and "node_body sp aid p w = (Inr p', w')"
  shows "map fst p' = map fst points_dict_init \<and> same_length p' (Suc n)"
proof -
  from assms(1) obtain c1 c2 c3 c4 c5 c6 where
    p: "p = [(''id'', c1), (''name'', c2), (''followers'', c3), (''popularity'', c4),
             (''url'', c5), (''image'', c6)]"
    by (auto simp: points_dict_init_def elim: keys_6)
  from assms(3) obtain a where a: "sp_artist sp aid = Some a" and i: "images a \<noteq> []"
    and p': "p' = [(''id'', c1 @ [Str aid]), (''name'', c2 @ [Str (name a)]),
                   (''followers'', c3 @ [Num (followers_total a)]),
                   (''popularity'', c4 @ [Num (popularity a)]),
                   (''url'', c5 @ [Str (external_urls_spotify a)]),
                   (''image'', c6 @ [Str (url (images a ! 0))])]"
    unfolding p
    by (auto simp: node_body_def and_then_sleep and_then_artist_call and_then_lift_Inr
        and_then_lift_Inl list_at_def lift_def split: option.splits if_splits)
  show ?thesis
    using assms(2) unfolding p p'
    by (simp add: same_length_def points_dict_init_def)
qed

lemma DataFrame_same_length: "same_length t n \<Longrightarrow> DataFrame t = Inr t"
  by (cases t) (auto simp: DataFrame_def same_length_def list_all_iff)

text \<open>
  Claim C10. The four lists of \<open>links_dict\<close> start empty and every round of lines
  33--36 appends one entry to each, so that after every round they have one length and
  the keys are unchanged; the six lists of \<open>points_dict\<close> start empty and every
  iteration of lines 62--69 that ends appends one entry to each. Lists of one length
  are what \<open>pd.DataFrame\<close> accepts: on such a dictionary it does not raise.
\<close>

theorem lists_grow_together:
  "same_length links_dict_init 0
   \<and> (map fst d = map fst links_dict_init \<and> same_length d n \<longrightarrow>
        (\<exists>d'. append_link a artist' d w = (Inr d', w)
            \<and> map fst d' = map fst links_dict_init \<and> same_length d' (Suc n)))
   \<and> same_length points_dict_init 0
   \<and> (map fst p = map fst points_dict_init \<and> same_length p m
        \<and> node_body sp aid p w = (Inr p', w') \<longrightarrow>
        map fst p' = map fst points_dict_init \<and> same_length p' (Suc m))
   \<and> (same_length d n \<longrightarrow> DataFrame d = Inr d)
   \<and> (same_length p m \<longrightarrow> DataFrame p = Inr p)"
  using append_link_round [of d n a artist' w] node_body_round [of p m sp aid w p' w']
    DataFrame_same_length [of d n] DataFrame_same_length [of p m]
  by (simp add: same_length_def links_dict_init_def points_dict_init_def)

text \<open>The first round from the empty dictionaries, in the example catalogue.\<close>

theorem lists_grow_together_witness:
  "map fst links_dict_init = map fst links_dict_init \<and> same_length links_dict_init 0
   \<and> (\<exists>d'. append_link artist_B artist_D links_dict_init world_init = (Inr d', world_init)
            \<and> map fst d' = map fst links_dict_init \<and> same_length d' (Suc 0))
   \<and> map fst points_dict_init = map fst points_dict_init \<and> same_length points_dict_init 0
   \<and> node_body catalogue ''idB'' points_dict_init world_init =
       (Inr (points_of (node_rows catalogue [''idB''])), called (node_events [''idB'']) world_init)
   \<and> map fst (points_of (node_rows catalogue [''idB''])) = map fst points_dict_init
   \<and> same_length (points_of (node_rows catalogue [''idB''])) (Suc 0)
   \<and> DataFrame links_dict_init = Inr links_dict_init
   \<and> DataFrame points_dict_init = Inr points_dict_init"
proof -
  have ok: "node_ok catalogue ''idB''" by code_simp
  have b: "node_body catalogue ''idB'' points_dict_init world_init =
       (Inr (points_of (node_rows catalogue [''idB''])), called (node_events [''idB'']) world_init)"
    using node_body_ok [OF ok, of "[]" world_init] by (simp add: points_dict_init_points_of)
  note t = lists_grow_together [of links_dict_init 0 artist_B artist_D world_init
      points_dict_init 0 catalogue "''idB''" "points_of (node_rows catalogue [''idB''])"
      "called (node_events [''idB'']) world_init"]
  from t have l0: "same_length links_dict_init 0" and p0: "same_length points_dict_init 0"
    by blast+
  with t b show ?thesis by blast
qed

end
